theory Spec2Isabelle
  imports Complex_Main "HOL-Library.AList"
begin

section \<open>open-vtt: common data model\<close>

text \<open>
  A Python \<open>str\<close> is a sequence of Unicode code points. Indices of \<open>find\<close> and of
  slices count code points, and \<open>strip\<close> removes Unicode white space, so a text is
  modelled as a list of code points. \<open>py\<close> embeds an ASCII literal.
\<close>

type_synonym pystr = "nat list"

definition py :: "string \<Rightarrow> pystr" where
  "py s = map of_char s"

text \<open>
  The exceptions of the Python run time that the modelled code can meet.
  \<open>subprocess.run\<close> reports an executable that is not there in one of two ways: as
  \<open>FileNotFoundError\<close> when the operating system answers \<open>ENOENT\<close> (no file of that name,
  in no directory of the search path), and as \<open>NotADirectoryError\<close> when it answers
  \<open>ENOTDIR\<close> (a directory component of the executable's path, or an entry of the search
  path, is a regular file, as for the command \<open>/etc/passwd/x\<close>). Both are subclasses of
  \<open>OSError\<close> and neither is a subclass of the other.
\<close>

datatype py_error =
    FileNotFoundError
  | NotADirectoryError
  | TimeoutExpired
  | IndexError
  | ValueError
  | OverflowError
  | OtherError pystr
  | SystemExit int

subsection \<open>The outside world\<close>

text \<open>
  The file system maps a path (as \<open>str(path)\<close> prints it) to the content of the file
  there; \<open>None\<close> is a path that does not exist. A media file holds its bytes, and its
  size is the length of the content; a file the program writes holds the text
  written. Everything else outside the process
  (the installed programs, the clock, the transcription models) is the hidden part
  \<open>'h\<close>, which only the external operations read and change.
  The model keeps a log of the external operations the program starts, in order.
\<close>

type_synonym path = pystr

type_synonym 'h outside = "(path \<rightharpoonup> pystr) \<times> 'h"

datatype call =
    Subprocess "pystr list"
  | MlxWhisper path
  | OpenaiWhisper path

record 'h state =
  fs :: "path \<rightharpoonup> pystr"
  hid :: 'h
  calls :: "call list"

text \<open>\<open>subprocess.CompletedProcess\<close>: \<open>stdout\<close> and \<open>stderr\<close> are \<open>None\<close> when the
  output is not captured.\<close>

record completed =
  returncode :: int
  stdout :: "pystr option"
  stderr :: "pystr option"

text \<open>A Python number is an \<open>int\<close> or a \<open>float\<close>; a finite float is held as the rational
  number it stands for (see the section on numbers).\<close>

datatype pynum = PyInt int | PyFloat rat

text \<open>A segment of a transcription result, with its keys \<open>start\<close>, \<open>end\<close> and \<open>text\<close>.
  An engine returns the list under the key \<open>segments\<close>, or \<open>None\<close> when its result has no
  such key.\<close>

record segment =
  seg_start :: pynum
  seg_end :: pynum
  seg_text :: pystr

text \<open>
  The external operations are parameters of the model: \<open>subprocess.run\<close> with its
  arguments \<open>cmd\<close>, \<open>capture_output\<close> and \<open>timeout\<close> (seconds), and the two transcription
  engines with the file and the language. Each returns a value or raises, and leaves
  the outside world in a new state.
\<close>

record 'h env =
  subprocess_run ::
    "pystr list \<Rightarrow> bool \<Rightarrow> nat \<Rightarrow> 'h outside \<Rightarrow> (py_error + completed) \<times> 'h outside"
  mlx_transcribe ::
    "path \<Rightarrow> pystr \<Rightarrow> 'h outside \<Rightarrow> (py_error + segment list option) \<times> 'h outside"
  whisper_transcribe ::
    "path \<Rightarrow> pystr \<Rightarrow> 'h outside \<Rightarrow> (py_error + segment list option) \<times> 'h outside"

definition external ::
  "('h outside \<Rightarrow> 'r \<times> 'h outside) \<Rightarrow> call \<Rightarrow> 'h state \<Rightarrow> 'r \<times> 'h state" where
  "external f c s =
     (case f (fs s, hid s) of
        (r, (fs', hid')) \<Rightarrow> (r, \<lparr>fs = fs', hid = hid', calls = calls s @ [c]\<rparr>))"

definition path_exists :: "'h state \<Rightarrow> path \<Rightarrow> bool" where
  "path_exists s p = (fs s p \<noteq> None)"

section \<open>Strings\<close>

text \<open>
  The \<open>str\<close> methods the program uses. \<open>startswith\<close>, \<open>in\<close> and \<open>find\<close> compare code
  points; \<open>find\<close> returns the least index at or after \<open>start\<close>, or \<open>-1\<close>; a slice
  clamps its bounds to the string, and a negative bound counts from the end.
  \<open>strip()\<close> removes the characters for which \<open>str.isspace\<close> holds at both ends.
\<close>

definition startswith :: "pystr \<Rightarrow> pystr \<Rightarrow> bool" where
  "startswith text sub = (take (length sub) text = sub)"

fun py_in :: "pystr \<Rightarrow> pystr \<Rightarrow> bool" where
  "py_in sub [] = (sub = [])"
| "py_in sub (x # xs) = (startswith (x # xs) sub \<or> py_in sub xs)"

fun find_aux :: "pystr \<Rightarrow> pystr \<Rightarrow> nat \<Rightarrow> int" where
  "find_aux sub [] i = (if sub = [] then int i else - 1)"
| "find_aux sub (x # xs) i = (if startswith (x # xs) sub then int i else find_aux sub xs (i + 1))"

definition clamp_index :: "pystr \<Rightarrow> int \<Rightarrow> nat" where
  "clamp_index text i =
     (let n = int (length text); j = (if i < 0 then i + n else i)
      in nat (max 0 (min n j)))"

definition py_find :: "pystr \<Rightarrow> pystr \<Rightarrow> int \<Rightarrow> int" where
  "py_find text sub start =
     (if int (length text) < start then - 1
      else find_aux sub (drop (clamp_index text start) text) (clamp_index text start))"

definition py_slice :: "pystr \<Rightarrow> int \<Rightarrow> int option \<Rightarrow> pystr" where
  "py_slice text a b =
     (let lo = clamp_index text a;
          hi = (case b of None \<Rightarrow> length text | Some e \<Rightarrow> clamp_index text e)
      in take (hi - lo) (drop lo text))"

definition isspace :: "nat \<Rightarrow> bool" where
  "isspace c =
     (9 \<le> c \<and> c \<le> 13 \<or> 28 \<le> c \<and> c \<le> 32 \<or> c = 133 \<or> c = 160 \<or> c = 5760
      \<or> 8192 \<le> c \<and> c \<le> 8202 \<or> c = 8232 \<or> c = 8233 \<or> c = 8239 \<or> c = 8287 \<or> c = 12288)"

definition strip :: "pystr \<Rightarrow> pystr" where
  "strip text = rev (dropWhile isspace (rev (dropWhile isspace text)))"

text \<open>\<open>str.split(sep)\<close> for a separator of one character.\<close>

fun split_on :: "nat \<Rightarrow> pystr \<Rightarrow> pystr list" where
  "split_on sep [] = [[]]"
| "split_on sep (x # xs) =
     (if x = sep then [] # split_on sep xs
      else (case split_on sep xs of
              [] \<Rightarrow> [[x]]
            | part # parts \<Rightarrow> (x # part) # parts))"

text \<open>\<open>sep.join(parts)\<close> for a separator of one character.\<close>

fun join_on :: "nat \<Rightarrow> pystr list \<Rightarrow> pystr" where
  "join_on sep [] = []"
| "join_on sep [part] = part"
| "join_on sep (part # next_part # parts) = part @ sep # join_on sep (next_part # parts)"

text \<open>\<open>str_int\<close> is the decimal text an f-string puts for an \<open>int\<close>.\<close>

fun str_nat :: "nat \<Rightarrow> pystr" where
  "str_nat n = (if n < 10 then [48 + n] else str_nat (n div 10) @ [48 + n mod 10])"

declare str_nat.simps [simp del]

definition str_int :: "int \<Rightarrow> pystr" where
  "str_int i = (if i < 0 then 45 # str_nat (nat (- i)) else str_nat (nat i))"

section \<open>Utilities\<close>

subsection \<open>\<open>run_command\<close>\<close>

text \<open>
  \<open>run_command(cmd, capture=True)\<close> calls \<open>subprocess.run\<close> with a timeout of 3600
  seconds and returns \<open>(returncode, stdout, stderr)\<close>. It handles two exceptions;
  every other one propagates. The message of the first handler reads \<open>cmd[0]\<close>.
\<close>

definition run_command ::
  "'h env \<Rightarrow> pystr list \<Rightarrow> bool \<Rightarrow> 'h state
     \<Rightarrow> (py_error + int \<times> pystr option \<times> pystr option) \<times> 'h state" where
  "run_command env cmd capture s =
     (case external (subprocess_run env cmd capture 3600) (Subprocess cmd) s of
        (Inr result, s') \<Rightarrow> (Inr (returncode result, stdout result, stderr result), s')
      | (Inl FileNotFoundError, s') \<Rightarrow>
          (case cmd of
             [] \<Rightarrow> (Inl IndexError, s')
           | c # _ \<Rightarrow> (Inr (- 1, Some [], Some (py ''Command not found: '' @ c)), s'))
      | (Inl TimeoutExpired, s') \<Rightarrow> (Inr (- 2, Some [], Some (py ''Command timed out'')), s')
      | (Inl e, s') \<Rightarrow> (Inl e, s'))"

text \<open>Three environments for the examples: one where no executable is installed, one
  where every process runs into the timeout, and one where a directory component of
  every executable's path is a regular file. \<open>empty_state\<close> has no file and an empty
  log.\<close>

definition absent_env :: "unit env" where
  "absent_env =
     \<lparr>subprocess_run = (\<lambda>cmd capture timeout out. (Inl FileNotFoundError, out)),
      mlx_transcribe = (\<lambda>p l out. (Inl (OtherError []), out)),
      whisper_transcribe = (\<lambda>p l out. (Inl (OtherError []), out))\<rparr>"

definition timeout_env :: "unit env" where
  "timeout_env =
     \<lparr>subprocess_run = (\<lambda>cmd capture timeout out. (Inl TimeoutExpired, out)),
      mlx_transcribe = (\<lambda>p l out. (Inl (OtherError []), out)),
      whisper_transcribe = (\<lambda>p l out. (Inl (OtherError []), out))\<rparr>"

definition not_a_directory_env :: "unit env" where
  "not_a_directory_env =
     \<lparr>subprocess_run = (\<lambda>cmd capture timeout out. (Inl NotADirectoryError, out)),
      mlx_transcribe = (\<lambda>p l out. (Inl (OtherError []), out)),
      whisper_transcribe = (\<lambda>p l out. (Inl (OtherError []), out))\<rparr>"

definition empty_state :: "unit state" where
  "empty_state = \<lparr>fs = Map.empty, hid = (), calls = []\<rparr>"

subsection \<open>Output paths\<close>

text \<open>
  \<open>pathlib\<close> is not part of the repository: the constructor \<open>Path(s)\<close> and the join
  \<open>directory / name\<close> are parameters of the functions that use them. A path is held
  as the text \<open>str(path)\<close>.
\<close>

record pathlib =
  Path :: "pystr \<Rightarrow> path"
  joinpath :: "path \<Rightarrow> pystr \<Rightarrow> path"

text \<open>
  \<open>posix_lib\<close> is what the two are on a POSIX system (\<open>PurePosixPath\<close>), written out from
  the rules of the library. A path is a root and a list of components. The root of a
  text is empty when the text does not begin with a slash (code point 47), two slashes
  when it begins with exactly two, and one slash otherwise. The components are the
  pieces between the slashes, without the empty ones and without the pieces \<open>.\<close> (code
  point 46); a piece \<open>..\<close> is kept. \<open>str\<close> prints the root and the components joined by
  slashes, and \<open>.\<close> for the path with neither. The join \<open>directory / name\<close> is the path
  of \<open>name\<close> alone when \<open>name\<close> has a root (an absolute name replaces the directory), and
  the directory's path followed by the components of \<open>name\<close> otherwise.
\<close>

definition path_root :: "pystr \<Rightarrow> pystr" where
  "path_root t =
     (if length (takeWhile (\<lambda>c. c = 47) t) = 0 then []
      else if length (takeWhile (\<lambda>c. c = 47) t) = 2 then [47, 47]
      else [47])"

definition path_parts :: "pystr \<Rightarrow> pystr list" where
  "path_parts t = filter (\<lambda>part. part \<noteq> [] \<and> part \<noteq> [46]) (split_on 47 t)"

definition format_path :: "pystr \<Rightarrow> pystr list \<Rightarrow> path" where
  "format_path anchor parts =
     (if anchor = [] \<and> parts = [] then [46] else anchor @ join_on 47 parts)"

definition posix_lib :: pathlib where
  "posix_lib =
     \<lparr>Path = (\<lambda>t. format_path (path_root t) (path_parts t)),
      joinpath = (\<lambda>directory name.
        if path_root name \<noteq> [] then format_path (path_root name) (path_parts name)
        else format_path (path_root directory) (path_parts directory @ path_parts name))\<rparr>"

text \<open>
  The \<open>while output.exists()\<close> loop of \<open>get_output_path\<close>, entered with the current
  \<open>output\<close> and \<open>counter\<close>. It has no bound of its own: \<open>None\<close> is the loop that never
  ends.
\<close>

partial_function (option) output_loop ::
  "pathlib \<Rightarrow> 'h state \<Rightarrow> pystr \<Rightarrow> pystr \<Rightarrow> path \<Rightarrow> path \<Rightarrow> int \<Rightarrow> path option" where
  "output_loop lib s base_name extension directory output counter =
     (if path_exists s output
      then output_loop lib s base_name extension directory
             (joinpath lib directory (base_name @ py ''-'' @ str_int counter @ py ''.'' @ extension))
             (counter + 1)
      else Some output)"

text \<open>\<open>if specified:\<close> holds for a string that is neither \<open>None\<close> nor empty.\<close>

definition get_output_path ::
  "pathlib \<Rightarrow> 'h state \<Rightarrow> pystr \<Rightarrow> pystr \<Rightarrow> path \<Rightarrow> pystr option \<Rightarrow> path option" where
  "get_output_path lib s base_name extension directory specified =
     (case specified of
        Some sp \<Rightarrow>
          if sp \<noteq> [] then Some (Path lib sp)
          else output_loop lib s base_name extension directory
                 (joinpath lib directory (base_name @ py ''.'' @ extension)) 1
      | None \<Rightarrow>
          output_loop lib s base_name extension directory
            (joinpath lib directory (base_name @ py ''.'' @ extension)) 1)"

text \<open>\<open>with open(p, "w") as f: f.write(text)\<close>: the file at \<open>p\<close> holds \<open>text\<close> afterwards,
  whatever it held before.\<close>

definition write_file :: "'h state \<Rightarrow> path \<Rightarrow> pystr \<Rightarrow> 'h state" where
  "write_file s p text = s\<lparr>fs := (fs s)(p \<mapsto> text)\<rparr>"

text \<open>Step 5 of \<open>cmd_convert\<close>: the raw response goes to the log file, the extracted
  document to the subtitle file.\<close>

definition save_outputs ::
  "pathlib \<Rightarrow> pystr \<Rightarrow> path \<Rightarrow> pystr option \<Rightarrow> pystr \<Rightarrow> pystr \<Rightarrow> 'h state \<Rightarrow> 'h state option" where
  "save_outputs lib base_name work_dir output_vtt raw vtt s =
     (case get_output_path lib s base_name (py ''log'') work_dir None of
        None \<Rightarrow> None
      | Some log_path \<Rightarrow>
          (let s1 = write_file s log_path raw in
           case get_output_path lib s1 base_name (py ''vtt'') work_dir output_vtt of
             None \<Rightarrow> None
           | Some output_path \<Rightarrow> Some (write_file s1 output_path vtt)))"

text \<open>The sequence of names the specification gives: \<open>base.ext\<close>, \<open>base-1.ext\<close>,
  \<open>base-2.ext\<close>, ... in the directory.\<close>

definition candidate :: "pathlib \<Rightarrow> path \<Rightarrow> pystr \<Rightarrow> pystr \<Rightarrow> nat \<Rightarrow> path" where
  "candidate lib directory base_name extension n =
     (if n = 0 then joinpath lib directory (base_name @ py ''.'' @ extension)
      else joinpath lib directory
             (base_name @ py ''-'' @ str_int (int n) @ py ''.'' @ extension))"

text \<open>A file system for the examples: the directory \<open>m\<close> holds \<open>v.vtt\<close> and
  \<open>v-1.vtt\<close>.\<close>

definition two_taken :: "unit state" where
  "two_taken =
     \<lparr>fs = [py ''m/v.vtt'' \<mapsto> py ''old'', py ''m/v-1.vtt'' \<mapsto> py ''old''], hid = (), calls = []\<rparr>"

subsection \<open>Numbers\<close>

text \<open>
  A Python number here is an \<open>int\<close> or a finite \<open>float\<close> (\<open>pynum\<close>). A float is an
  IEEE 754 binary64 value and is modelled by the rational number it stands for. An
  arithmetic operation on floats returns the exact result rounded to the nearest
  binary64 value, ties to the even significand: \<open>round_double\<close>. The significand has
  53 bits and the least exponent is \<open>-1074\<close> (subnormal values); the values met here
  stay far below the overflow threshold, which is not modelled.
\<close>

fun bit_length :: "nat \<Rightarrow> nat" where
  "bit_length n = (if n = 0 then 0 else Suc (bit_length (n div 2)))"

declare bit_length.simps [simp del]

definition floor_log2 :: "rat \<Rightarrow> int" where
  \<comment> \<open>for \<open>a > 0\<close>: the greatest \<open>k\<close> with \<open>2^k \<le> a\<close>\<close>
  "floor_log2 a =
     (if 1 \<le> a then int (bit_length (nat \<lfloor>a\<rfloor>)) - 1
      else - int (bit_length (nat (\<lceil>1 / a\<rceil> - 1))))"

definition scale2 :: "rat \<Rightarrow> int \<Rightarrow> rat" where
  \<comment> \<open>\<open>a * 2^e\<close>\<close>
  "scale2 a e = (if 0 \<le> e then a * 2 ^ nat e else a / 2 ^ nat (- e))"

definition round_half_even :: "rat \<Rightarrow> int" where
  "round_half_even q =
     (let f = \<lfloor>q\<rfloor>; r = q - of_int f
      in if r < 1 / 2 then f else if 1 / 2 < r then f + 1 else if even f then f else f + 1)"

definition double_exponent :: "rat \<Rightarrow> int" where
  \<comment> \<open>for \<open>a > 0\<close>: the exponent of the last place of the binary64 values around \<open>a\<close>\<close>
  "double_exponent a = max (floor_log2 a - 52) (- 1074)"

definition round_double :: "rat \<Rightarrow> rat" where
  "round_double q =
     (if q = 0 then 0
      else sgn q * scale2 (of_int (round_half_even (scale2 \<bar>q\<bar> (- double_exponent \<bar>q\<bar>))))
                     (double_exponent \<bar>q\<bar>))"

text \<open>A float literal of the source is the binary64 value nearest to the decimal.\<close>

definition float_literal :: "rat \<Rightarrow> pynum" where
  "float_literal q = PyFloat (round_double q)"

text \<open>\<open>int(x)\<close> of a float and \<open>math.modf\<close> cut toward zero.\<close>

definition trunc :: "rat \<Rightarrow> int" where
  "trunc q = (if 0 \<le> q then \<lfloor>q\<rfloor> else \<lceil>q\<rceil>)"

text \<open>C's \<open>round\<close>: to the nearest integer, halves away from zero.\<close>

definition round_away :: "rat \<Rightarrow> int" where
  "round_away q = (if 0 \<le> q then \<lfloor>q + 1 / 2\<rfloor> else \<lceil>q - 1 / 2\<rceil>)"

subsection \<open>\<open>datetime.timedelta\<close>\<close>

text \<open>
  \<open>timedelta(seconds=x)\<close> as CPython computes it, given as the whole number of
  microseconds of the result. An \<open>int\<close> is multiplied by \<open>10^6\<close>. A float is cut into
  its whole and fractional part; the fractional part times \<open>10^6\<close> (a float product) is
  cut again, and what is left over is rounded to a whole microsecond, a half going to
  the even total. A result beyond 999999999 days raises \<open>OverflowError\<close>.
  \<open>total_seconds()\<close> is the true division of the microseconds by \<open>10^6\<close>, a float.
\<close>

definition timedelta_seconds :: "pynum \<Rightarrow> py_error + int" where
  "timedelta_seconds x =
     (let us =
        (case x of
           PyInt n \<Rightarrow> n * 1000000
         | PyFloat d \<Rightarrow>
             (let intpart = trunc d;
                  fracpart = d - of_int intpart;
                  whole = intpart * 1000000
              in if fracpart = 0 then whole
                 else
                   (let dnum = round_double (1000000 * fracpart);
                        y = whole + trunc dnum;
                        leftover_us = dnum - of_int (trunc dnum)
                    in if leftover_us = 0 then y
                       else
                         (let whole_us = round_away leftover_us
                          in if \<bar>of_int whole_us - leftover_us\<bar> = 1 / 2
                             then (let x_is_odd = (if odd y then 1 else 0)
                                   in y + (2 * round_away ((leftover_us + of_int x_is_odd) * (1 / 2))
                                           - x_is_odd))
                             else y + whole_us))))
      in if 999999999 < \<bar>us div 86400000000\<bar> then Inl OverflowError else Inr us)"

definition total_seconds :: "int \<Rightarrow> rat" where
  "total_seconds us = round_double (of_int us / 1000000)"

subsection \<open>\<open>to_vtt_time\<close>\<close>

text \<open>The format specification \<open>0w\<close> for an \<open>int\<close>: at least \<open>w\<close> characters, zeros
  after the sign.\<close>

definition zero_pad :: "nat \<Rightarrow> int \<Rightarrow> pystr" where
  "zero_pad w n =
     (if n < 0
      then 45 # replicate (w - 1 - length (str_nat (nat (- n)))) 48 @ str_nat (nat (- n))
      else replicate (w - length (str_nat (nat n))) 48 @ str_nat (nat n))"

definition to_vtt_time :: "pynum \<Rightarrow> py_error + pystr" where
  "to_vtt_time seconds =
     (case timedelta_seconds seconds of
        Inl e \<Rightarrow> Inl e
      | Inr td \<Rightarrow>
          (let total = trunc (total_seconds td);
               hours = total div 3600;
               remainder = total mod 3600;
               minutes = remainder div 60;
               secs = remainder mod 60;
               milliseconds =
                 (case seconds of
                    PyInt n \<Rightarrow> (n - n) * 1000
                  | PyFloat d \<Rightarrow> trunc (round_double (round_double (d - of_int (trunc d)) * 1000)))
           in Inr (zero_pad 2 hours @ py '':'' @ zero_pad 2 minutes @ py '':''
                   @ zero_pad 2 secs @ py ''.'' @ zero_pad 3 milliseconds)))"

text \<open>
  The timestamp the specification describes for a non-negative number of seconds:
  hours, minutes and seconds of the whole seconds, and the fractional part in
  milliseconds, cut toward zero.
\<close>

definition spec_timestamp :: "rat \<Rightarrow> pystr" where
  "spec_timestamp x =
     zero_pad 2 (\<lfloor>x\<rfloor> div 3600) @ py '':'' @ zero_pad 2 (\<lfloor>x\<rfloor> mod 3600 div 60) @ py '':''
       @ zero_pad 2 (\<lfloor>x\<rfloor> mod 60) @ py ''.'' @ zero_pad 3 \<lfloor>(x - of_int \<lfloor>x\<rfloor>) * 1000\<rfloor>"

section \<open>Configuration\<close>

text \<open>
  A parsed JSON document, as \<open>json.load\<close> returns it and as the defaults of
  \<open>load_config\<close> are written. A Python \<open>dict\<close> keeps its keys in insertion order and
  holds each key once: it is an association list, and \<open>base[k] = v\<close> is
  \<open>AList.update\<close> (the value is replaced in place when the key is there, the pair is
  appended otherwise).
\<close>

datatype json =
    JNull
  | JBool bool
  | JInt int
  | JFloat rat
  | JStr pystr
  | JList "json list"
  | JDict "(pystr \<times> json) list"

text \<open>
  \<open>deep_update(base, update)\<close> changes \<open>base\<close> in place, one item of \<open>update\<close> after
  the other; the model returns the new \<open>base\<close>. The test
  \<open>isinstance(v, dict) and k in base and isinstance(base[k], dict)\<close> is the pair of
  \<open>case\<close> distinctions.
\<close>

function deep_update ::
  "(pystr \<times> json) list \<Rightarrow> (pystr \<times> json) list \<Rightarrow> (pystr \<times> json) list" where
  "deep_update base [] = base"
| "deep_update base ((k, v) # rest) =
     deep_update
       (case v of
          JDict u \<Rightarrow>
            (case map_of base k of
               Some (JDict b) \<Rightarrow> AList.update k (JDict (deep_update b u)) base
             | _ \<Rightarrow> AList.update k v base)
        | _ \<Rightarrow> AList.update k v base)
       rest"
  by pat_completeness auto
termination
  by (relation "measure (\<lambda>(base, update). size (JDict update))") auto

text \<open>The defaults of \<open>load_config\<close>; the prompt path depends on where the program is
  installed and is a parameter. The literal \<open>0.7\<close> is the binary floating-point number
  nearest to seven tenths, \<open>3152519739159347 / 4503599627370496\<close>.\<close>

definition default_config :: "pystr \<Rightarrow> (pystr \<times> json) list" where
  "default_config prompt =
     [(py ''gemini'', JDict
         [(py ''model'', JStr (py ''gemini-3-pro-preview'')),
          (py ''temperature'', JFloat (round_double (7 / 10))),
          (py ''max_output_tokens'', JInt 65536),
          (py ''thinking'', JStr (py ''high'')),
          (py ''grounding'', JDict
             [(py ''enabled'', JBool True), (py ''source'', JStr (py ''google_search''))])]),
      (py ''video'', JDict
         [(py ''max_size_mb'', JInt 400),
          (py ''downsample_targets'', JList
             [JDict [(py ''fps'', JInt 10), (py ''resolution'', JStr (py ''1920x1080'')),
                     (py ''label'', JStr (py ''10fps 1080p''))],
              JDict [(py ''fps'', JInt 5), (py ''resolution'', JStr (py ''1920x1080'')),
                     (py ''label'', JStr (py ''5fps 1080p''))],
              JDict [(py ''fps'', JInt 5), (py ''resolution'', JStr (py ''1280x720'')),
                     (py ''label'', JStr (py ''5fps 720p''))],
              JDict [(py ''fps'', JInt 1), (py ''resolution'', JStr (py ''854x480'')),
                     (py ''label'', JStr (py ''1fps 480p''))]])]),
      (py ''transcription'', JDict [(py ''language'', JStr (py ''en''))]),
      (py ''files'', JDict [(py ''prompt'', JStr prompt)])]"

section \<open>Extraction of the subtitle document\<close>

text \<open>The marker \<open>WEBVTT\<close> and the terminator of a fenced code block, three
  backquotes (code point 96).\<close>

definition marker :: pystr where
  "marker = py ''WEBVTT''"

definition fence :: pystr where
  "fence = [96, 96, 96]"

text \<open>The extraction at the end of \<open>call_gemini\<close>, from the response text to the value
  stored under \<open>'vtt'\<close>.\<close>

definition call_gemini_vtt :: "pystr \<Rightarrow> pystr" where
  "call_gemini_vtt text =
     (if py_in marker text then
        (let vtt_start = py_find text marker 0;
             vtt_end = py_find text fence vtt_start
         in if vtt_end > vtt_start
            then strip (py_slice text vtt_start (Some vtt_end))
            else strip (py_slice text vtt_start None))
      else text)"

text \<open>The helper \<open>extract_vtt\<close> of \<open>cmd_test\<close>, which the tests run in place of the
  code above.\<close>

definition extract_vtt :: "pystr \<Rightarrow> pystr" where
  "extract_vtt text =
     (if py_in marker text then
        (let vtt_start = py_find text marker 0;
             vtt_end = py_find text fence vtt_start
         in if vtt_end = - 1
            then py_slice text vtt_start None
            else strip (py_slice text vtt_start (Some vtt_end)))
      else text)"

text \<open>The three responses of the extraction tests (10 is the line feed): a fenced
  document with prose before and after it, a plain document, and a text without the
  marker.\<close>

definition raw1_pre :: pystr where
  "raw1_pre = py ''Here is the VTT:'' @ [10] @ fence @ [10]"

definition raw1_body :: pystr where
  "raw1_body = [10, 10] @ py ''00:00.000 --> 00:05.000'' @ [10] @ py ''Hello'' @ [10]"

definition raw1_post :: pystr where
  "raw1_post = [10] @ py ''Done!''"

definition raw1 :: pystr where
  "raw1 = raw1_pre @ marker @ raw1_body @ fence @ raw1_post"

definition raw2_rest :: pystr where
  "raw2_rest = [10, 10] @ py ''00:00.000 --> 00:05.000'' @ [10] @ py ''Plain VTT''"

definition raw3 :: pystr where
  "raw3 = py ''No VTT content here at all''"

section \<open>Serving\<close>

text \<open>\<open>str.replace(old, new)\<close> replaces every occurrence of \<open>old\<close>, from the left and
  without overlap; \<open>lstrip('/')\<close> drops the leading slashes (code point 47).\<close>

function replace_nonempty :: "pystr \<Rightarrow> pystr \<Rightarrow> pystr \<Rightarrow> pystr" where
  "replace_nonempty [] old new = []"
| "replace_nonempty (x # xs) old new =
     (if old \<noteq> [] \<and> startswith (x # xs) old
      then new @ replace_nonempty (drop (length old) (x # xs)) old new
      else x # replace_nonempty xs old new)"
  by pat_completeness auto
termination
  by (relation "measure (\<lambda>(t, old, new). length t)") auto

definition py_replace :: "pystr \<Rightarrow> pystr \<Rightarrow> pystr \<Rightarrow> pystr" where
  "py_replace t old new =
     (if old = [] then new @ concat (map (\<lambda>c. c # new) t) else replace_nonempty t old new)"

definition lstrip_slash :: "pystr \<Rightarrow> pystr" where
  "lstrip_slash t = dropWhile (\<lambda>c. c = 47) t"

definition endswith :: "pystr \<Rightarrow> pystr \<Rightarrow> bool" where
  "endswith t suffix =
     (length suffix \<le> length t \<and> drop (length t - length suffix) t = suffix)"

text \<open>
  What \<open>OpenVTTHandler\<close> takes from outside the repository: \<open>urllib.parse.unquote\<close>, the
  \<open>translate_path\<close> of \<open>SimpleHTTPRequestHandler\<close> (the default resolution, rooted at
  the working directory, which \<open>cmd_serve\<close> sets to the application directory) and the
  media directory \<open>MEDIA_DIR\<close>.
\<close>

record server =
  unquote :: "pystr \<Rightarrow> pystr"
  default_translate_path :: "pystr \<Rightarrow> path"
  MEDIA_DIR :: path

definition translate_path :: "server \<Rightarrow> pathlib \<Rightarrow> 'h state \<Rightarrow> pystr \<Rightarrow> path" where
  "translate_path srv lib s request =
     (let path = unquote srv request in
      if startswith path (py ''/media/'')
      then joinpath lib (MEDIA_DIR srv) (py_replace path (py ''/media/'') [])
      else
        (let path_clean = lstrip_slash path;
             media_path = joinpath lib (MEDIA_DIR srv) path_clean
         in if path_exists s media_path \<and> \<not> endswith path_clean (py ''.html'')
            then media_path
            else default_translate_path srv path))"

text \<open>\<open>do_GET\<close> rewrites the request path \<open>/\<close> and hands over to the inherited
  \<open>do_GET\<close>, which resolves \<open>self.path\<close> with \<open>translate_path\<close>. The result is the
  file the request is answered from.\<close>

definition do_GET :: "server \<Rightarrow> pathlib \<Rightarrow> 'h state \<Rightarrow> pystr \<Rightarrow> path" where
  "do_GET srv lib s request =
     translate_path srv lib s (if request = py ''/'' then py ''/player.html'' else request)"

text \<open>A server for the examples: no percent escapes to decode, the application in
  \<open>app\<close>, the media in \<open>m\<close>, where \<open>v.vtt\<close> and \<open>v-1.vtt\<close> exist.\<close>

definition plain_server :: server where
  "plain_server =
     \<lparr>unquote = (\<lambda>p. p), default_translate_path = (\<lambda>p. py ''app'' @ p), MEDIA_DIR = py ''m''\<rparr>"

section \<open>Size reduction\<close>

text \<open>
  \<open>get_file_size_mb\<close>: \<open>st_size\<close> is the length of the content, and the division by
  \<open>1024 * 1024\<close> is exact (in binary floating point too, for every size below
  \<open>2^53\<close> bytes), so megabytes are rationals. \<open>stat\<close> raises on a missing file.
\<close>

definition get_file_size_mb :: "'h state \<Rightarrow> path \<Rightarrow> py_error + rat" where
  "get_file_size_mb s p =
     (case fs s p of
        None \<Rightarrow> Inl FileNotFoundError
      | Some content \<Rightarrow> Inr (of_nat (length content) / (1024 * 1024)))"

text \<open>
  A downsample preset with its three keys; \<open>fps\<close> is held as the text the f-string
  prints for it. The unpacking \<open>width, height = target["resolution"].split("x")\<close>
  raises \<open>ValueError\<close> unless the split gives two parts: then there is no command.
\<close>

record target =
  fps :: pystr
  resolution :: pystr
  label :: pystr

definition ffmpeg_cmd :: "path \<Rightarrow> path \<Rightarrow> target \<Rightarrow> pystr list option" where
  "ffmpeg_cmd video_path output_path t =
     (case split_on 120 (resolution t) of
        [width, height] \<Rightarrow>
          Some [py ''ffmpeg'', py ''-y'', py ''-i'', video_path,
                py ''-vf'',
                py ''fps='' @ fps t @ py '',scale='' @ width @ py '':'' @ height
                  @ py '':force_original_aspect_ratio=decrease'',
                py ''-c:v'', py ''libx264'', py ''-crf'', py ''28'', py ''-preset'', py ''fast'',
                py ''-c:a'', py ''aac'', py ''-b:a'', py ''128k'',
                output_path]
      | _ \<Rightarrow> None)"

text \<open>One round of the loop of \<open>downsample_video\<close>: the transcoder runs, and its output is
  accepted (\<open>Fits\<close>), still too large (\<open>Oversized\<close>) or missing (\<open>Failed\<close>).\<close>

datatype verdict = Fits | Oversized | Failed

definition try_target ::
  "'h env \<Rightarrow> rat \<Rightarrow> path \<Rightarrow> path \<Rightarrow> target \<Rightarrow> 'h state \<Rightarrow> (py_error + verdict) \<times> 'h state" where
  "try_target env MAX_SIZE_MB video_path output_path t s =
     (case ffmpeg_cmd video_path output_path t of
        None \<Rightarrow> (Inl ValueError, s)
      | Some cmd \<Rightarrow>
          (case run_command env cmd True s of
             (Inl e, s1) \<Rightarrow> (Inl e, s1)
           | (Inr (code, out, err), s1) \<Rightarrow>
               if code = 0 \<and> path_exists s1 output_path
               then (case get_file_size_mb s1 output_path of
                       Inl e \<Rightarrow> (Inl e, s1)
                     | Inr new_size \<Rightarrow>
                         if new_size \<le> MAX_SIZE_MB then (Inr Fits, s1) else (Inr Oversized, s1))
               else (Inr Failed, s1)))"

fun downsample_loop ::
  "'h env \<Rightarrow> rat \<Rightarrow> path \<Rightarrow> path \<Rightarrow> target list \<Rightarrow> 'h state
     \<Rightarrow> (py_error + path option) \<times> 'h state" where
  "downsample_loop env MAX_SIZE_MB video_path output_path [] s = (Inr None, s)"
| "downsample_loop env MAX_SIZE_MB video_path output_path (t # ts) s =
     (case try_target env MAX_SIZE_MB video_path output_path t s of
        (Inl e, s1) \<Rightarrow> (Inl e, s1)
      | (Inr Fits, s1) \<Rightarrow> (Inr (Some output_path), s1)
      | (Inr _, s1) \<Rightarrow> downsample_loop env MAX_SIZE_MB video_path output_path ts s1)"

text \<open>\<open>downsample_video(video_path, output_path)\<close> with the two configuration values it
  reads, \<open>MAX_SIZE_MB\<close> and \<open>DOWNSAMPLE_TARGETS\<close>. \<open>Inr None\<close> is the failure result
  \<open>None\<close> of the Python function.\<close>

definition downsample_video ::
  "'h env \<Rightarrow> rat \<Rightarrow> target list \<Rightarrow> path \<Rightarrow> path \<Rightarrow> 'h state
     \<Rightarrow> (py_error + path option) \<times> 'h state" where
  "downsample_video env MAX_SIZE_MB DOWNSAMPLE_TARGETS video_path output_path s =
     (case get_file_size_mb s video_path of
        Inl e \<Rightarrow> (Inl e, s)
      | Inr size_mb \<Rightarrow>
          if size_mb \<le> MAX_SIZE_MB then (Inr (Some video_path), s)
          else downsample_loop env MAX_SIZE_MB video_path output_path DOWNSAMPLE_TARGETS s)"

text \<open>
  What the specification says of the attempts, in terms of what can be observed from
  outside: the process that is started and the file it leaves. A preset names a frame
  rate and a resolution \<open>WxH\<close> with one \<open>x\<close> (code point 120) between the width and the
  height. The attempt for a preset starts the transcoder \<open>ffmpeg\<close> on the video with the
  preset's frame rate, scaling that fits within the resolution and keeps the aspect
  ratio, a fixed quality and speed for the video and a fixed bit rate for the audio, and
  with the output path as its last argument. The attempt is accepted when the
  transcoder has succeeded (return code 0) and the output file is there with a size in
  megabytes (bytes divided by \<open>1024 * 1024\<close>) of at most the ceiling.
\<close>

definition preset_width :: "target \<Rightarrow> pystr" where
  "preset_width t = takeWhile (\<lambda>c. c \<noteq> 120) (resolution t)"

definition preset_height :: "target \<Rightarrow> pystr" where
  "preset_height t = tl (dropWhile (\<lambda>c. c \<noteq> 120) (resolution t))"

definition spec_transcoder_command :: "path \<Rightarrow> path \<Rightarrow> target \<Rightarrow> pystr list" where
  "spec_transcoder_command video_path output_path t =
     [py ''ffmpeg'', py ''-y'', py ''-i'', video_path,
      py ''-vf'',
      py ''fps='' @ fps t @ py '',scale='' @ preset_width t @ py '':'' @ preset_height t
        @ py '':force_original_aspect_ratio=decrease'',
      py ''-c:v'', py ''libx264'', py ''-crf'', py ''28'', py ''-preset'', py ''fast'',
      py ''-c:a'', py ''aac'', py ''-b:a'', py ''128k'',
      output_path]"

definition spec_accepted :: "int \<Rightarrow> 'h state \<Rightarrow> path \<Rightarrow> rat \<Rightarrow> bool" where
  "spec_accepted code s output_path limit =
     (code = 0
      \<and> (case fs s output_path of
            None \<Rightarrow> False
          | Some produced \<Rightarrow> of_nat (length produced) / (1024 * 1024) \<le> limit))"

text \<open>The state after the attempts for the presets of a list have run in list order,
  each starting where the one before ended, and none was accepted; \<open>None\<close> when that is
  not what happens: a preset is not of the form \<open>WxH\<close>, an attempt raises, or an attempt
  is accepted.\<close>

fun spec_all_rejected ::
  "'h env \<Rightarrow> rat \<Rightarrow> path \<Rightarrow> path \<Rightarrow> target list \<Rightarrow> 'h state \<Rightarrow> 'h state option" where
  "spec_all_rejected env limit video_path output_path [] s = Some s"
| "spec_all_rejected env limit video_path output_path (t # ts) s =
     (if count_list (resolution t) 120 = 1
      then (case run_command env (spec_transcoder_command video_path output_path t) True s of
              (Inr (code, out, err), s1) \<Rightarrow>
                if spec_accepted code s1 output_path limit then None
                else spec_all_rejected env limit video_path output_path ts s1
            | (Inl e, s1) \<Rightarrow> None)
      else None)"

text \<open>The four default presets, and a transcoder for the examples. Its first run fails
  with return code 1 and leaves an output of one byte all the same; the later runs
  succeed, with an output of three bytes, then two, then one. The hidden state counts
  the runs. The video of the examples has five bytes.\<close>

definition preset_10fps_1080p :: target where
  "preset_10fps_1080p =
     \<lparr>fps = py ''10'', resolution = py ''1920x1080'', label = py ''10fps 1080p''\<rparr>"

definition preset_5fps_1080p :: target where
  "preset_5fps_1080p =
     \<lparr>fps = py ''5'', resolution = py ''1920x1080'', label = py ''5fps 1080p''\<rparr>"

definition preset_5fps_720p :: target where
  "preset_5fps_720p =
     \<lparr>fps = py ''5'', resolution = py ''1280x720'', label = py ''5fps 720p''\<rparr>"

definition preset_1fps_480p :: target where
  "preset_1fps_480p =
     \<lparr>fps = py ''1'', resolution = py ''854x480'', label = py ''1fps 480p''\<rparr>"

definition staged_env :: "nat env" where
  "staged_env =
     \<lparr>subprocess_run = (\<lambda>cmd capture timeout (files, runs).
          (Inr \<lparr>returncode = (if runs = 0 then 1 else 0), stdout = Some [], stderr = Some []\<rparr>,
           (files(last cmd \<mapsto> replicate (if runs = 0 then 1 else 4 - runs) 0), Suc runs))),
      mlx_transcribe = (\<lambda>p l out. (Inl (OtherError []), out)),
      whisper_transcribe = (\<lambda>p l out. (Inl (OtherError []), out))\<rparr>"

definition big_video :: "nat state" where
  "big_video = \<lparr>fs = [py ''in.mp4'' \<mapsto> replicate 5 0], hid = 0, calls = []\<rparr>"

section \<open>Baseline subtitles\<close>

subsection \<open>\<open>extract_subtitles\<close>\<close>

definition extract_cmd :: "path \<Rightarrow> path \<Rightarrow> pystr list" where
  "extract_cmd video_path output_path =
     [py ''ffmpeg'', py ''-y'', py ''-i'', video_path,
      py ''-map'', py ''0:s:0'', py ''-c:s'', py ''webvtt'', output_path]"

definition extract_subtitles ::
  "'h env \<Rightarrow> path \<Rightarrow> path \<Rightarrow> 'h state \<Rightarrow> (py_error + bool) \<times> 'h state" where
  "extract_subtitles env video_path output_path s =
     (case run_command env (extract_cmd video_path output_path) True s of
        (Inl e, s1) \<Rightarrow> (Inl e, s1)
      | (Inr (code, out, err), s1) \<Rightarrow> (Inr (code = 0 \<and> path_exists s1 output_path), s1))"

subsection \<open>\<open>transcribe_with_whisper\<close>\<close>

text \<open>
  The two branches of \<open>transcribe_with_whisper\<close> differ in the engine only. The engine
  runs first. The file is then opened for writing, the header is written, and one cue
  per segment follows. An exception of the engine or of the formatting of a cue is
  caught by \<open>except Exception\<close> and gives \<open>False\<close>; the file keeps what was written up to
  there. \<open>SystemExit\<close> is not an \<open>Exception\<close> and propagates.
\<close>

definition vtt_cue :: "segment \<Rightarrow> py_error + pystr" where
  "vtt_cue g =
     (case to_vtt_time (seg_start g) of
        Inl e \<Rightarrow> Inl e
      | Inr start \<Rightarrow>
          (case to_vtt_time (seg_end g) of
             Inl e \<Rightarrow> Inl e
           | Inr end \<Rightarrow>
               Inr (start @ py '' --> '' @ end @ [10] @ strip (seg_text g) @ [10, 10])))"

fun write_segments :: "segment list \<Rightarrow> pystr \<Rightarrow> bool \<times> pystr" where
  "write_segments [] written = (True, written)"
| "write_segments (g # gs) written =
     (case vtt_cue g of
        Inl e \<Rightarrow> (False, written)
      | Inr cue \<Rightarrow> write_segments gs (written @ cue))"

definition transcribe_with ::
  "(path \<Rightarrow> pystr \<Rightarrow> 'h outside \<Rightarrow> (py_error + segment list option) \<times> 'h outside)
     \<Rightarrow> call \<Rightarrow> path \<Rightarrow> path \<Rightarrow> pystr \<Rightarrow> 'h state \<Rightarrow> (py_error + bool) \<times> 'h state" where
  "transcribe_with engine c video_path output_path language s =
     (case external (engine video_path language) c s of
        (Inl (SystemExit code), s1) \<Rightarrow> (Inl (SystemExit code), s1)
      | (Inl e, s1) \<Rightarrow> (Inr False, s1)
      | (Inr result, s1) \<Rightarrow>
          (case write_segments (case result of None \<Rightarrow> [] | Some segments \<Rightarrow> segments)
                  (py ''WEBVTT'' @ [10, 10]) of
             (ok, written) \<Rightarrow> (Inr ok, write_file s1 output_path written)))"

text \<open>The engines that could be imported: \<open>HAS_MLX_WHISPER\<close> and \<open>HAS_WHISPER\<close>.\<close>

record engines =
  HAS_MLX_WHISPER :: bool
  HAS_WHISPER :: bool

definition transcribe_with_whisper ::
  "'h env \<Rightarrow> engines \<Rightarrow> pystr \<Rightarrow> path \<Rightarrow> path \<Rightarrow> 'h state \<Rightarrow> (py_error + bool) \<times> 'h state" where
  "transcribe_with_whisper env has language video_path output_path s =
     (if HAS_MLX_WHISPER has
      then transcribe_with (mlx_transcribe env) (MlxWhisper video_path)
             video_path output_path language s
      else if HAS_WHISPER has
      then transcribe_with (whisper_transcribe env) (OpenaiWhisper video_path)
             video_path output_path language s
      else (Inr False, s))"

subsection \<open>Step 2 of \<open>cmd_convert\<close>\<close>

text \<open>The result of \<open>ffprobe_check\<close> (without the raw probe data), and the document written
  for a video without audio.\<close>

record metadata =
  duration :: rat
  size_mb :: rat
  has_audio :: bool
  has_subtitles :: bool

definition silent_document :: pystr where
  "silent_document =
     py ''WEBVTT'' @ [10, 10] @ py ''NOTE This video has no audio track (silent film).''
       @ [10, 10]"

text \<open>The test after the three cases: \<open>sys.exit(1)\<close> unless the subtitles were obtained
  and the file exists.\<close>

definition require_subtitles ::
  "path \<Rightarrow> (py_error + bool) \<times> 'h state \<Rightarrow> (py_error + unit) \<times> 'h state" where
  "require_subtitles subtitles_path r =
     (case r of
        (Inl e, s) \<Rightarrow> (Inl e, s)
      | (Inr success, s) \<Rightarrow>
          if \<not> success \<or> \<not> path_exists s subtitles_path then (Inl (SystemExit 1), s)
          else (Inr (), s))"

definition obtain_subtitles ::
  "'h env \<Rightarrow> engines \<Rightarrow> pystr \<Rightarrow> metadata \<Rightarrow> path \<Rightarrow> path \<Rightarrow> 'h state
     \<Rightarrow> (py_error + unit) \<times> 'h state" where
  "obtain_subtitles env has language m video_path subtitles_path s =
     require_subtitles subtitles_path
       (if \<not> has_audio m then (Inr True, write_file s subtitles_path silent_document)
        else if has_subtitles m then
          (case extract_subtitles env video_path subtitles_path s of
             (Inl e, s1) \<Rightarrow> (Inl e, s1)
           | (Inr success, s1) \<Rightarrow>
               if \<not> success
               then transcribe_with_whisper env has language video_path subtitles_path s1
               else (Inr success, s1))
        else transcribe_with_whisper env has language video_path subtitles_path s)"

text \<open>For the examples: a video with audio and a subtitle stream, both engines
  installed, and a media tool that exits with code 0 and leaves an empty output
  file.\<close>

definition with_subtitles :: metadata where
  "with_subtitles = \<lparr>duration = 60, size_mb = 1, has_audio = True, has_subtitles = True\<rparr>"

definition silent :: metadata where
  "silent = \<lparr>duration = 60, size_mb = 1, has_audio = False, has_subtitles = False\<rparr>"

definition both_engines :: engines where
  "both_engines = \<lparr>HAS_MLX_WHISPER = True, HAS_WHISPER = True\<rparr>"

definition empty_output_env :: "unit env" where
  "empty_output_env =
     \<lparr>subprocess_run = (\<lambda>cmd capture timeout (files, h).
          (Inr \<lparr>returncode = 0, stdout = Some [], stderr = Some []\<rparr>,
           (files(last cmd \<mapsto> []), h))),
      mlx_transcribe = (\<lambda>p l out. (Inr (Some []), out)),
      whisper_transcribe = (\<lambda>p l out. (Inr (Some []), out))\<rparr>"

text \<open>A media tool that fails with code 1 and writes nothing.\<close>

definition failing_tool_env :: "unit env" where
  "failing_tool_env =
     \<lparr>subprocess_run = (\<lambda>cmd capture timeout out.
          (Inr \<lparr>returncode = 1, stdout = Some [], stderr = Some []\<rparr>, out)),
      mlx_transcribe = (\<lambda>p l out. (Inr (Some []), out)),
      whisper_transcribe = (\<lambda>p l out. (Inr (Some []), out))\<rparr>"

section \<open>Properties\<close>

subsection \<open>\<open>run_command\<close>\<close>

lemma external_fst:
  "fst (external f c s) = fst (f (fs s, hid s))"
  by (simp add: external_def split: prod.splits)

lemma external_calls:
  "calls (snd (external f c s)) = calls s @ [c]"
  by (simp add: external_def split: prod.splits)

text \<open>
  Claim C8, refuted as stated: \<open>run_command\<close> does raise for a missing executable, when
  \<open>subprocess.run\<close> reports it as \<open>NotADirectoryError\<close>. The command \<open>/etc/passwd/x\<close> names
  no executable (\<open>/etc/passwd\<close> is a regular file); \<open>subprocess.run\<close> raises
  \<open>NotADirectoryError\<close> for it, neither handler of \<open>run_command\<close> catches that, and the
  caller gets the exception instead of a return code.
\<close>

theorem run_command_missing_executable_counterexample:
  "fst (subprocess_run not_a_directory_env [py ''/etc/passwd/x''] True 3600
          (fs empty_state, hid empty_state)) = Inl NotADirectoryError
   \<and> fst (run_command not_a_directory_env [py ''/etc/passwd/x''] True empty_state) =
       Inl NotADirectoryError
   \<and> (\<forall>code out err. fst (run_command not_a_directory_env [py ''/etc/passwd/x''] True empty_state)
         \<noteq> Inr (code, out, err))"
  by (simp add: run_command_def external_def not_a_directory_env_def empty_state_def)

text \<open>
  Claim C8, amended. Whatever exception \<open>subprocess.run\<close> raises for the command under the
  fixed timeout of 3600 seconds: when it is \<open>FileNotFoundError\<close>, \<open>run_command\<close> returns
  \<open>(-1, "", "Command not found: " + cmd[0])\<close>; when it is \<open>TimeoutExpired\<close>, \<open>run_command\<close>
  returns \<open>(-2, "", "Command timed out")\<close>; every other exception, among them the
  \<open>NotADirectoryError\<close> of a missing executable, is raised by \<open>run_command\<close> unchanged. In
  no case is the result a triple with the return code 0 of a success.
\<close>

theorem run_command_failure_results:
  fixes env :: "'h env" and s :: "'h state"
  assumes "fst (subprocess_run env (c # args) capture 3600 (fs s, hid s)) = Inl raised"
  shows "fst (run_command env (c # args) capture s) =
           (if raised = FileNotFoundError
            then Inr (- 1, Some [], Some (py ''Command not found: '' @ c))
            else if raised = TimeoutExpired
            then Inr (- 2, Some [], Some (py ''Command timed out''))
            else Inl raised)
         \<and> (\<forall>out err. fst (run_command env (c # args) capture s) \<noteq> Inr (0, out, err))"
proof -
  obtain r s' where ext:
    "external (subprocess_run env (c # args) capture 3600) (Subprocess (c # args)) s = (r, s')"
    by (cases "external (subprocess_run env (c # args) capture 3600) (Subprocess (c # args)) s")
  have r: "r = Inl raised"
    using external_fst [of "subprocess_run env (c # args) capture 3600" "Subprocess (c # args)" s]
      ext assms by simp
  show ?thesis
    by (cases raised) (simp_all add: run_command_def ext r)
qed

theorem run_command_failure_results_witness:
  "fst (subprocess_run absent_env [py ''ffmpeg'', py ''-version''] True 3600
          (fs empty_state, hid empty_state)) = Inl FileNotFoundError
   \<and> fst (run_command absent_env [py ''ffmpeg'', py ''-version''] True empty_state) =
       Inr (- 1, Some [], Some (py ''Command not found: ffmpeg''))
   \<and> fst (subprocess_run timeout_env [py ''ffmpeg'', py ''-version''] True 3600
          (fs empty_state, hid empty_state)) = Inl TimeoutExpired
   \<and> fst (run_command timeout_env [py ''ffmpeg'', py ''-version''] True empty_state) =
       Inr (- 2, Some [], Some (py ''Command timed out''))
   \<and> fst (subprocess_run not_a_directory_env [py ''/etc/passwd/x'', py ''-version''] True 3600
          (fs empty_state, hid empty_state)) = Inl NotADirectoryError
   \<and> fst (run_command not_a_directory_env [py ''/etc/passwd/x'', py ''-version''] True
            empty_state) = Inl NotADirectoryError"
proof -
  have m2: "fst (subprocess_run absent_env [py ''ffmpeg'', py ''-version''] True 3600
          (fs empty_state, hid empty_state)) = Inl FileNotFoundError"
    unfolding absent_env_def by simp
  have t2: "fst (subprocess_run timeout_env [py ''ffmpeg'', py ''-version''] True 3600
          (fs empty_state, hid empty_state)) = Inl TimeoutExpired"
    unfolding timeout_env_def by simp
  have n2: "fst (subprocess_run not_a_directory_env [py ''/etc/passwd/x'', py ''-version''] True
          3600 (fs empty_state, hid empty_state)) = Inl NotADirectoryError"
    unfolding not_a_directory_env_def by simp
  have "fst (run_command absent_env [py ''ffmpeg'', py ''-version''] True empty_state) =
       Inr (- 1, Some [], Some (py ''Command not found: '' @ py ''ffmpeg''))"
    using conjunct1 [OF run_command_failure_results [OF m2]] by simp
  then have missing: "fst (run_command absent_env [py ''ffmpeg'', py ''-version''] True empty_state) =
       Inr (- 1, Some [], Some (py ''Command not found: ffmpeg''))"
    by (simp add: py_def)
  have timed_out: "fst (run_command timeout_env [py ''ffmpeg'', py ''-version''] True empty_state) =
       Inr (- 2, Some [], Some (py ''Command timed out''))"
    using conjunct1 [OF run_command_failure_results [OF t2]] by simp
  have propagated: "fst (run_command not_a_directory_env [py ''/etc/passwd/x'', py ''-version'']
       True empty_state) = Inl NotADirectoryError"
    using conjunct1 [OF run_command_failure_results [OF n2]] by simp
  from m2 missing t2 timed_out n2 propagated show ?thesis
    by blast
qed

subsection \<open>\<open>get_output_path\<close>\<close>

lemma output_loop_first_free:
  assumes "\<not> path_exists s (candidate lib d b e n)"
    and "\<forall>m. k \<le> m \<and> m < n \<longrightarrow> path_exists s (candidate lib d b e m)"
    and "k \<le> n"
  shows "output_loop lib s b e d (candidate lib d b e k) (int k + 1) =
           Some (candidate lib d b e n)"
  using assms
proof (induction "n - k" arbitrary: k)
  case 0
  then have "k = n" by simp
  with "0.prems"(1) show ?case
    by (subst output_loop.simps) simp
next
  case (Suc j)
  then have lt: "k < n" and ex: "path_exists s (candidate lib d b e k)"
    by auto
  have step: "output_loop lib s b e d (candidate lib d b e (Suc k)) (int (Suc k) + 1) =
                Some (candidate lib d b e n)"
  proof (rule Suc.hyps(1))
    show "j = n - Suc k" using Suc.hyps(2) by simp
    show "\<not> path_exists s (candidate lib d b e n)" by (rule Suc.prems(1))
    show "\<forall>m. Suc k \<le> m \<and> m < n \<longrightarrow> path_exists s (candidate lib d b e m)"
      using Suc.prems(2) by auto
    show "Suc k \<le> n" using lt by simp
  qed
  have "output_loop lib s b e d (candidate lib d b e k) (int k + 1) =
          output_loop lib s b e d
            (joinpath lib d (b @ py ''-'' @ str_int (int k + 1) @ py ''.'' @ e)) (int k + 1 + 1)"
    by (subst output_loop.simps) (simp add: ex)
  also have "\<dots> = output_loop lib s b e d (candidate lib d b e (Suc k)) (int (Suc k) + 1)"
    by (simp add: candidate_def algebra_simps)
  finally show ?case
    using step by simp
qed

text \<open>
  Claim C7. With no output path specified (\<open>None\<close>, or the empty string, which
  \<open>if specified:\<close> treats alike), \<open>get_output_path\<close> returns the first name of the
  sequence \<open>base.ext\<close>, \<open>base-1.ext\<close>, \<open>base-2.ext\<close>, ... that does not exist: when the
  first \<open>n\<close> names of the sequence exist and the next one does not, the loop ends and
  the result is that next name, the \<open>(n+1)\<close>-th candidate.
\<close>

theorem get_output_path_first_free:
  assumes "specified = None \<or> specified = Some []"
    and "\<forall>m<n. path_exists s (candidate lib directory base_name extension m)"
    and "\<not> path_exists s (candidate lib directory base_name extension n)"
  shows "get_output_path lib s base_name extension directory specified =
           Some (candidate lib directory base_name extension n)"
proof -
  have "output_loop lib s base_name extension directory
          (candidate lib directory base_name extension 0) (int 0 + 1) =
        Some (candidate lib directory base_name extension n)"
    by (rule output_loop_first_free) (use assms in auto)
  then have "output_loop lib s base_name extension directory
          (joinpath lib directory (base_name @ py ''.'' @ extension)) 1 =
        Some (candidate lib directory base_name extension n)"
    by (simp add: candidate_def)
  with assms(1) show ?thesis
    by (auto simp: get_output_path_def)
qed

lemmas path_eval = posix_lib_def path_root_def path_parts_def format_path_def py_def

lemma candidates_two_taken:
  "candidate posix_lib (py ''m'') (py ''v'') (py ''vtt'') 0 = py ''m/v.vtt''"
  "candidate posix_lib (py ''m'') (py ''v'') (py ''vtt'') 1 = py ''m/v-1.vtt''"
  "candidate posix_lib (py ''m'') (py ''v'') (py ''vtt'') 2 = py ''m/v-2.vtt''"
  by (simp_all add: candidate_def path_eval str_int_def str_nat.simps)

theorem get_output_path_first_free_witness:
  "path_exists two_taken (candidate posix_lib (py ''m'') (py ''v'') (py ''vtt'') 0)
   \<and> path_exists two_taken (candidate posix_lib (py ''m'') (py ''v'') (py ''vtt'') 1)
   \<and> \<not> path_exists two_taken (candidate posix_lib (py ''m'') (py ''v'') (py ''vtt'') 2)
   \<and> get_output_path posix_lib two_taken (py ''v'') (py ''vtt'') (py ''m'') None =
       Some (py ''m/v-2.vtt'')"
proof -
  have c0: "path_exists two_taken (py ''m/v.vtt'')"
    and c1: "path_exists two_taken (py ''m/v-1.vtt'')"
    by (simp_all add: path_exists_def two_taken_def py_def)
  have h1: "\<forall>m<2. path_exists two_taken (candidate posix_lib (py ''m'') (py ''v'') (py ''vtt'') m)"
  proof (intro allI impI)
    fix m :: nat assume "m < 2"
    then have "m = 0 \<or> m = 1" by auto
    then show "path_exists two_taken (candidate posix_lib (py ''m'') (py ''v'') (py ''vtt'') m)"
      using c0 c1 candidates_two_taken(1,2) by metis
  qed
  have c2: "\<not> path_exists two_taken (py ''m/v-2.vtt'')"
    by (simp add: path_exists_def two_taken_def py_def)
  then have h2: "\<not> path_exists two_taken (candidate posix_lib (py ''m'') (py ''v'') (py ''vtt'') 2)"
    unfolding candidates_two_taken by assumption
  have "get_output_path posix_lib two_taken (py ''v'') (py ''vtt'') (py ''m'') None =
          Some (candidate posix_lib (py ''m'') (py ''v'') (py ''vtt'') 2)"
    by (rule get_output_path_first_free [OF _ h1 h2]) simp
  then have found: "get_output_path posix_lib two_taken (py ''v'') (py ''vtt'') (py ''m'') None =
          Some (py ''m/v-2.vtt'')"
    unfolding candidates_two_taken by assumption
  show ?thesis
    unfolding candidates_two_taken using c0 c1 c2 found by blast
qed

text \<open>
  Claim C10. With an output path specified (a non-empty string), \<open>get_output_path\<close>
  returns \<open>Path(specified)\<close> in every state of the file system: it makes no existence
  check and adds no suffix. The subtitle document that \<open>cmd_convert\<close> then saves
  replaces whatever the file at that path held.
\<close>

theorem get_output_path_specified:
  assumes "sp \<noteq> []"
  shows "get_output_path lib s base_name extension directory (Some sp) = Some (Path lib sp)
         \<and> (\<forall>s'. save_outputs lib base_name work_dir (Some sp) raw vtt s = Some s'
               \<longrightarrow> fs s' (Path lib sp) = Some vtt)"
  using assms
  by (auto simp: get_output_path_def save_outputs_def write_file_def Let_def
           split: option.splits)

theorem get_output_path_specified_witness:
  "py ''m/v.vtt'' \<noteq> []
   \<and> path_exists two_taken (Path posix_lib (py ''m/v.vtt''))
   \<and> get_output_path posix_lib two_taken (py ''v'') (py ''vtt'') (py ''m'') (Some (py ''m/v.vtt''))
       = Some (py ''m/v.vtt'')
   \<and> (\<exists>s'. save_outputs posix_lib (py ''v'') (py ''m'') (Some (py ''m/v.vtt''))
               (py ''raw'') (py ''WEBVTT'') two_taken = Some s'
             \<and> fs s' (py ''m/v.vtt'') = Some (py ''WEBVTT''))"
proof -
  have h: "py ''m/v.vtt'' \<noteq> []"
    by (simp add: py_def)
  have ex: "path_exists two_taken (Path posix_lib (py ''m/v.vtt''))"
    by (simp add: path_exists_def two_taken_def path_eval)
  have log: "get_output_path posix_lib two_taken (py ''v'') (py ''log'') (py ''m'') None =
               Some (py ''m/v.log'')"
    by (simp add: get_output_path_def output_loop.simps path_exists_def two_taken_def
          path_eval)
  have path: "get_output_path posix_lib s (py ''v'') (py ''vtt'') (py ''m'')
                (Some (py ''m/v.vtt'')) = Some (py ''m/v.vtt'')" for s :: "unit state"
    using conjunct1 [OF get_output_path_specified [OF h],
        of posix_lib s "py ''v''" "py ''vtt''" "py ''m''"]
    by (simp add: path_eval)
  have saved: "save_outputs posix_lib (py ''v'') (py ''m'') (Some (py ''m/v.vtt''))
                 (py ''raw'') (py ''WEBVTT'') two_taken =
               Some (write_file (write_file two_taken (py ''m/v.log'') (py ''raw''))
                       (py ''m/v.vtt'') (py ''WEBVTT''))"
    by (simp add: save_outputs_def log path)
  have "fs (write_file (write_file two_taken (py ''m/v.log'') (py ''raw''))
              (py ''m/v.vtt'') (py ''WEBVTT'')) (py ''m/v.vtt'') = Some (py ''WEBVTT'')"
    by (simp add: write_file_def)
  with h ex path saved show ?thesis
    by blast
qed

subsection \<open>Numbers\<close>

lemma bit_length_bounds:
  "0 < n \<Longrightarrow> 2 ^ (bit_length n - 1) \<le> n \<and> n < 2 ^ bit_length n"
proof (induction n rule: bit_length.induct)
  case (1 n)
  show ?case
  proof (cases "n div 2 = 0")
    case True
    with "1.prems" have "n = 1"
      by (simp add: div_eq_0_iff)
    moreover have "bit_length 1 = 1"
      by (simp add: bit_length.simps)
    ultimately show ?thesis
      by simp
  next
    case False
    then have pos: "0 < n div 2"
      by simp
    from "1.IH" [OF _ pos] "1.prems"
    have lo: "2 ^ (bit_length (n div 2) - 1) \<le> n div 2"
      and hi: "n div 2 < 2 ^ bit_length (n div 2)"
      by simp_all
    have bl: "bit_length n = Suc (bit_length (n div 2))"
      using "1.prems" by (subst bit_length.simps) simp
    have bpos: "0 < bit_length (n div 2)"
      using pos by (subst bit_length.simps) simp
    then have "(2::nat) ^ bit_length (n div 2) = 2 * 2 ^ (bit_length (n div 2) - 1)"
      by (cases "bit_length (n div 2)") simp_all
    with lo have "2 ^ bit_length (n div 2) \<le> n"
      by simp
    moreover have "n < 2 * 2 ^ bit_length (n div 2)"
      using hi by simp
    ultimately show ?thesis
      by (simp add: bl)
  qed
qed

lemma scale2_one_pos: "0 < scale2 1 k"
  by (simp add: scale2_def)

lemma floor_log2_bounds:
  assumes "0 < a"
  shows "scale2 1 (floor_log2 a) \<le> a \<and> a < scale2 1 (floor_log2 a + 1)"
proof (cases "1 \<le> a")
  case True
  define n where "n = nat \<lfloor>a\<rfloor>"
  have n: "0 < n" "of_nat n \<le> a" "a < of_nat n + 1"
    using True by (simp_all add: n_def) linarith+
  from bit_length_bounds [OF n(1)]
  have lo: "2 ^ (bit_length n - 1) \<le> n" and hi: "n < 2 ^ bit_length n"
    by simp_all
  have bpos: "0 < bit_length n"
    using n(1) by (subst bit_length.simps) simp
  have k: "floor_log2 a = int (bit_length n - 1)"
    using True bpos by (simp add: floor_log2_def n_def)
  have "(2::rat) ^ (bit_length n - 1) \<le> of_nat n"
    using lo by (metis of_nat_le_iff of_nat_numeral of_nat_power)
  then have "(2::rat) ^ (bit_length n - 1) \<le> a"
    using n(2) by (rule order_trans)
  then have "scale2 1 (floor_log2 a) \<le> a"
    by (simp add: k scale2_def)
  moreover have "of_nat n + 1 \<le> (2::rat) ^ bit_length n"
  proof -
    have "n + 1 \<le> 2 ^ bit_length n" using hi by simp
    then have "(of_nat (n + 1) :: rat) \<le> of_nat (2 ^ bit_length n)"
      by (rule of_nat_mono)
    then show ?thesis by simp
  qed
  then have "a < scale2 1 (floor_log2 a + 1)"
    using n(3) bpos by (simp add: k scale2_def of_nat_diff nat_add_distrib)
  ultimately show ?thesis
    by simp
next
  case False
  define t where "t = \<lceil>1 / a\<rceil>"
  define n where "n = nat (t - 1)"
  have inv: "1 < 1 / a"
    using assms False by simp
  then have t2: "2 \<le> t"
    unfolding t_def by linarith
  have n1: "0 < n" and tn: "t = int n + 1"
    using t2 by (simp_all add: n_def)
  have up: "1 / a \<le> of_int t" and down: "of_int t - 1 < 1 / a"
    unfolding t_def by linarith+
  from bit_length_bounds [OF n1]
  have lo: "2 ^ (bit_length n - 1) \<le> n" and hi: "n < 2 ^ bit_length n"
    by simp_all
  have bpos: "0 < bit_length n"
    using n1 by (subst bit_length.simps) simp
  have k: "floor_log2 a = - int (bit_length n)"
    using False by (simp add: floor_log2_def n_def t_def)
  have "of_int t \<le> (2::rat) ^ bit_length n"
  proof -
    have "n + 1 \<le> 2 ^ bit_length n" using hi by simp
    then have "(of_nat (n + 1) :: rat) \<le> of_nat (2 ^ bit_length n)"
      by (rule of_nat_mono)
    then show ?thesis by (simp add: tn)
  qed
  with up have "1 / a \<le> 2 ^ bit_length n"
    by linarith
  then have "1 / 2 ^ bit_length n \<le> a"
    using assms by (simp add: field_simps)
  then have first: "scale2 1 (floor_log2 a) \<le> a"
    using bpos by (simp add: k scale2_def)
  have pow_le: "(2::rat) ^ (bit_length n - 1) \<le> of_nat n"
    using lo by (metis of_nat_le_iff of_nat_numeral of_nat_power)
  have "of_nat n < 1 / a"
    using down by (simp add: tn)
  with pow_le have "2 ^ (bit_length n - 1) < 1 / a"
    by (rule le_less_trans)
  then have "a < 1 / 2 ^ (bit_length n - 1)"
    using assms by (simp add: field_simps)
  moreover have "scale2 1 (floor_log2 a + 1) = 1 / 2 ^ (bit_length n - 1)"
    using bpos by (auto simp: k scale2_def nat_diff_distrib' of_nat_diff)
  ultimately show ?thesis
    using first by simp
qed

lemma scale2_powi: "scale2 a e = a * 2 powi e"
  by (simp add: scale2_def power_int_def field_simps)

lemma round_half_even_error: "\<bar>of_int (round_half_even q) - q\<bar> \<le> 1 / 2"
proof -
  have "of_int \<lfloor>q\<rfloor> \<le> q" "q < of_int \<lfloor>q\<rfloor> + 1"
    by linarith+
  then show ?thesis
    by (auto simp: round_half_even_def Let_def abs_le_iff) 
qed

lemma round_half_even_tie:
  "q - of_int \<lfloor>q\<rfloor> = 1 / 2 \<Longrightarrow> even (round_half_even q)"
  by (simp add: round_half_even_def Let_def)

text \<open>\<open>round_double\<close> rounds to the nearest point of the binary64 grid: for \<open>q\<close> other than
  0 and the exponent \<open>e\<close> of the last place at \<open>q\<close>, the result is a whole multiple of
  \<open>2^e\<close> at most half of \<open>2^e\<close> away from \<open>q\<close>; in the normal range the significand
  \<open>m\<close> has 53 bits.\<close>

lemma round_double_nearest:
  assumes "q \<noteq> 0"
  defines "e \<equiv> double_exponent \<bar>q\<bar>"
  shows "\<exists>m. round_double q = sgn q * (of_int m * 2 powi e)
             \<and> \<bar>round_double q - q\<bar> \<le> 2 powi e / 2
             \<and> (- 1074 \<le> floor_log2 \<bar>q\<bar> - 52 \<longrightarrow> 2 ^ 52 \<le> m \<and> m \<le> 2 ^ 53)"
proof -
  define x where "x = scale2 \<bar>q\<bar> (- e)"
  define m where "m = round_half_even x"
  have pw: "(2::rat) powi e * 2 powi (- e) = 1"
    by (simp add: power_int_minus)
  have unscaled: "\<bar>q\<bar> = x * 2 powi e"
    using pw by (simp add: x_def scale2_powi mult.assoc mult.commute)
  have val: "round_double q = sgn q * (of_int m * 2 powi e)"
    using assms(1) by (simp add: round_double_def m_def x_def e_def scale2_powi)
  have q: "q = sgn q * \<bar>q\<bar>"
    by (simp add: sgn_if)
  have "round_double q - q = sgn q * ((of_int m - x) * 2 powi e)"
    by (subst (2) q) (simp add: val unscaled algebra_simps)
  then have "\<bar>round_double q - q\<bar> = \<bar>of_int m - x\<bar> * 2 powi e"
    using assms(1) by (simp add: abs_mult abs_sgn_eq)
  also have "\<dots> \<le> 1 / 2 * 2 powi e"
    using round_half_even_error [of x] by (intro mult_right_mono) (simp_all add: m_def)
  finally have err: "\<bar>round_double q - q\<bar> \<le> 2 powi e / 2"
    by simp
  have sig: "2 ^ 52 \<le> m \<and> m \<le> 2 ^ 53" if normal: "- 1074 \<le> floor_log2 \<bar>q\<bar> - 52"
  proof -
    let ?k = "floor_log2 \<bar>q\<bar>"
    have e: "e = ?k - 52"
      using normal by (simp add: e_def double_exponent_def)
    from floor_log2_bounds [of "\<bar>q\<bar>"] assms(1)
    have lo: "2 powi ?k \<le> \<bar>q\<bar>" and hi: "\<bar>q\<bar> < 2 powi (?k + 1)"
      by (simp_all add: scale2_powi)
    have x: "x = \<bar>q\<bar> * 2 powi (52 - ?k)"
      by (simp add: x_def scale2_powi e)
    have "(2::rat) powi ?k * 2 powi (52 - ?k) = 2 powi 52"
      by (simp flip: power_int_add)
    moreover have "(2::rat) powi (?k + 1) * 2 powi (52 - ?k) = 2 powi 53"
      by (simp flip: power_int_add)
    moreover have pos: "(0::rat) < 2 powi (52 - ?k)"
      by simp
    ultimately have xlo: "2 powi 52 \<le> x" and xhi: "x < 2 powi 53"
      using lo hi mult_right_mono [of "2 powi ?k" "\<bar>q\<bar>" "2 powi (52 - ?k)"]
        mult_strict_right_mono [of "\<bar>q\<bar>" "2 powi (?k + 1)" "2 powi (52 - ?k)"]
      by (simp_all add: x)
    have "(2::rat) powi 52 = of_int (2 ^ 52)" "(2::rat) powi 53 = of_int (2 ^ 53)"
      by simp_all
    with xlo xhi have "of_int (2 ^ 52) \<le> x" "x < of_int (2 ^ 53)"
      by simp_all
    then have "2 ^ 52 \<le> \<lfloor>x\<rfloor>" "\<lfloor>x\<rfloor> < 2 ^ 53"
      by (simp_all add: le_floor_iff floor_less_iff)
    moreover have "\<lfloor>x\<rfloor> \<le> m" "m \<le> \<lfloor>x\<rfloor> + 1"
      by (simp_all add: m_def round_half_even_def Let_def)
    ultimately show ?thesis
      by linarith
  qed
  from val err sig show ?thesis
    by blast
qed


lemma round_half_even_of_int [simp]: "round_half_even (of_int z) = z"
  by (simp add: round_half_even_def)

text \<open>A whole number below \<open>2^53\<close> is a binary64 value.\<close>

lemma round_double_of_int:
  assumes "0 \<le> n" and "n < 2 ^ 53"
  shows "round_double (of_int n) = of_int n"
proof (cases "n = 0")
  case True
  then show ?thesis
    by (simp add: round_double_def)
next
  case False
  with assms(1) have pos: "0 < n"
    by simp
  define L where "L = bit_length (nat n)"
  from bit_length_bounds [of "nat n"] pos
  have lo: "2 ^ (L - 1) \<le> nat n" and hi: "nat n < 2 ^ L"
    by (simp_all add: L_def)
  have "nat n < 2 ^ 53"
    using assms by (simp add: nat_less_iff)
  with lo have "(2::nat) ^ (L - 1) < 2 ^ 53"
    by (rule le_less_trans)
  then have "L - 1 < 53"
    by (rule power_less_imp_less_exp [of 2, rotated]) simp
  moreover have "0 < L"
    using pos unfolding L_def by (subst bit_length.simps) simp
  ultimately have L: "0 < L" "L \<le> 53"
    by simp_all
  have k: "floor_log2 (of_int n) = int L - 1"
    using pos by (simp add: floor_log2_def L_def)
  have e: "double_exponent (of_int n) = int L - 53"
    using L by (simp add: double_exponent_def k)
  have up: "scale2 (of_int n) (- (int L - 53)) = of_int (n * 2 ^ (53 - L))"
    using pos L by (simp add: scale2_def nat_diff_distrib')
  have down: "scale2 (of_int (n * 2 ^ (53 - L))) (int L - 53) = of_int n"
    using L by (auto simp: scale2_def nat_diff_distrib')
  have magnitude: "\<bar>rat_of_int n\<bar> = of_int n"
    using pos by simp
  show ?thesis
    unfolding round_double_def magnitude e up round_half_even_of_int down
    using pos by simp
qed

subsection \<open>\<open>to_vtt_time\<close>\<close>

lemma floor_rat_numeral:
  "\<lfloor>(numeral a :: rat) / numeral b\<rfloor> = numeral a div numeral b"
  "\<lfloor>(1 :: rat) / numeral b\<rfloor> = 1 div numeral b"
  by (metis floor_divide_of_int_eq of_int_numeral,
      metis floor_divide_of_int_eq of_int_numeral of_int_1)

lemma ceiling_rat_numeral:
  "\<lceil>(numeral a :: rat) / numeral b\<rceil> = - (- numeral a div numeral b)"
  unfolding ceiling_def
  by (metis divide_minus_left floor_divide_of_int_eq of_int_neg_numeral of_int_numeral)

lemmas float_eval =
  round_double_def double_exponent_def floor_log2_def scale2_def round_half_even_def Let_def
  trunc_def round_away_def floor_rat_numeral ceiling_rat_numeral bit_length.simps

lemma replicate_small:
  "replicate 1 x = [x]" "replicate 2 x = [x, x]" "replicate 3 x = [x, x, x]"
  by (simp_all add: numeral_2_eq_2 numeral_3_eq_3)

lemmas vtt_eval =
  to_vtt_time_def timedelta_seconds_def total_seconds_def zero_pad_def py_def replicate_small
  str_nat.simps

lemma double_literals:
  "round_double (3 / 2) = 3 / 2"
  "round_double (90123 / 1000) = 6341842331523613 / 70368744177664"
  "round_double (19999999 / 10000000) = 9007198804381029 / 4503599627370496"
  by (simp_all add: float_eval)

text \<open>The examples of the specification and of the program's tests:
  \<open>to_vtt_time(0)\<close>, \<open>to_vtt_time(1.5)\<close>, \<open>to_vtt_time(3661)\<close> and
  \<open>to_vtt_time(90.123)\<close>.\<close>

lemma to_vtt_time_0: "to_vtt_time (PyInt 0) = Inr (py ''00:00:00.000'')"
  by (simp add: vtt_eval float_eval)

lemma to_vtt_time_3661: "to_vtt_time (PyInt 3661) = Inr (py ''01:01:01.000'')"
  by (simp add: vtt_eval float_eval)

lemma to_vtt_time_1_5: "to_vtt_time (float_literal (3 / 2)) = Inr (py ''00:00:01.500'')"
  unfolding float_literal_def double_literals
  by (simp add: vtt_eval float_eval)

lemma to_vtt_time_90_123:
  "to_vtt_time (float_literal (90123 / 1000)) = Inr (py ''00:01:30.123'')"
  unfolding float_literal_def double_literals
  by (simp add: vtt_eval float_eval)

text \<open>On an \<open>int\<close> within the range of \<open>timedelta\<close>, \<open>to_vtt_time\<close> returns the timestamp
  of the specification.\<close>

lemma to_vtt_time_int:
  assumes "0 \<le> n" and "n < 86400000000000"
  shows "to_vtt_time (PyInt n) = Inr (spec_timestamp (of_int n))"
proof -
  have "n * 1000000 div 86400000000 = n div 86400"
    by simp
  moreover have "n div 86400 \<le> 86399999999999 div 86400"
    using assms(2) by (intro zdiv_mono1) simp_all
  then have "n div 86400 \<le> 999999999"
    by simp
  moreover have "0 \<le> n div 86400"
    using assms(1) by (simp add: pos_imp_zdiv_nonneg_iff)
  ultimately have td: "timedelta_seconds (PyInt n) = Inr (n * 1000000)"
    by (simp add: timedelta_seconds_def)
  have "n < 2 ^ 53"
    using assms(2) by simp
  then have "total_seconds (n * 1000000) = of_int n"
    using round_double_of_int [OF assms(1)] by (simp add: total_seconds_def)
  then have total: "trunc (total_seconds (n * 1000000)) = n"
    by (simp add: trunc_def assms(1))
  have secs: "n mod 3600 mod 60 = n mod 60"
    by (rule mod_mod_cancel) simp
  show ?thesis
    by (simp add: to_vtt_time_def td total spec_timestamp_def Let_def secs)
qed

text \<open>
  Claim C1 fails on the code. \<open>to_vtt_time(1.9999999)\<close> takes its whole seconds from
  \<open>timedelta\<close>, which rounds to the nearest microsecond (here up to 2 seconds), and its
  milliseconds from the fractional part of the argument, cut toward zero (999). The
  result names a time a second late; the timestamp of the specification for the same
  value is \<open>00:00:01.999\<close>.
\<close>

theorem to_vtt_time_seconds_rounded:
  "to_vtt_time (float_literal (19999999 / 10000000)) = Inr (py ''00:00:02.999'')
   \<and> spec_timestamp (round_double (19999999 / 10000000)) = py ''00:00:01.999''"
  unfolding float_literal_def double_literals
  by (simp add: vtt_eval float_eval spec_timestamp_def)

subsection \<open>\<open>deep_update\<close>\<close>

lemma deep_update_key:
  assumes "distinct (map fst update)"
  shows "map_of (deep_update base update) k =
           (case map_of update k of
              None \<Rightarrow> map_of base k
            | Some v \<Rightarrow>
                (case (map_of base k, v) of
                   (Some (JDict b), JDict u) \<Rightarrow> Some (JDict (deep_update b u))
                 | _ \<Rightarrow> Some v))"
  using assms
proof (induction update arbitrary: base)
  case Nil
  show ?case by simp
next
  case (Cons item rest)
  obtain k0 v0 where item: "item = (k0, v0)"
    by (cases item)
  define base' where "base' =
    (case v0 of
       JDict u \<Rightarrow>
         (case map_of base k0 of
            Some (JDict b) \<Rightarrow> AList.update k0 (JDict (deep_update b u)) base
          | _ \<Rightarrow> AList.update k0 v0 base)
     | _ \<Rightarrow> AList.update k0 v0 base)"
  have unfold: "deep_update base (item # rest) = deep_update base' rest"
    by (simp add: item base'_def)
  have fresh: "map_of rest k0 = None"
    using Cons.prems by (simp add: item map_of_eq_None_iff)
  have dist: "distinct (map fst rest)"
    using Cons.prems by simp
  have other: "map_of base' k = map_of base k" if "k \<noteq> k0"
    using that by (simp add: base'_def update_conv' split: json.splits option.splits)
  have same: "map_of base' k0 =
                (case (map_of base k0, v0) of
                   (Some (JDict b), JDict u) \<Rightarrow> Some (JDict (deep_update b u))
                 | _ \<Rightarrow> Some v0)"
    by (simp add: base'_def update_conv' split: json.splits option.splits)
  have "map_of (deep_update base (item # rest)) k = map_of (deep_update base' rest) k"
    by (simp only: unfold)
  also have "\<dots> =
           (case map_of rest k of
              None \<Rightarrow> map_of base' k
            | Some v \<Rightarrow>
                (case (map_of base' k, v) of
                   (Some (JDict b), JDict u) \<Rightarrow> Some (JDict (deep_update b u))
                 | _ \<Rightarrow> Some v))"
    by (rule Cons.IH [OF dist])
  also have "\<dots> =
           (case map_of (item # rest) k of
              None \<Rightarrow> map_of base k
            | Some v \<Rightarrow>
                (case (map_of base k, v) of
                   (Some (JDict b), JDict u) \<Rightarrow> Some (JDict (deep_update b u))
                 | _ \<Rightarrow> Some v))"
  proof (cases "k = k0")
    case True
    then show ?thesis
      using fresh same by (simp add: item)
  next
    case False
    then have eq: "map_of base' k = map_of base k"
      by (rule other)
    show ?thesis
      unfolding eq using False by (simp add: item)
  qed
  finally show ?case .
qed

text \<open>
  Claim C4. The merge is per key and recursive only into mappings. For a default
  document \<open>base\<close> and an override \<open>update\<close> (a dictionary, so its keys are distinct),
  the merged value at a key is the default where the override has no such key, the
  recursive merge where both values are mappings, and the override value wholesale in
  every other case (a list replaces a list). Consequently an override
  \<open>{section: {key: v}}\<close> of one key in a section that is a mapping leaves every other
  key of that section and every other section as in the default, and sets the key to
  \<open>v\<close> when \<open>v\<close> is not itself a mapping.
\<close>

theorem deep_update_merge:
  "(distinct (map fst update) \<longrightarrow>
      map_of (deep_update base update) k =
        (case map_of update k of
           None \<Rightarrow> map_of base k
         | Some v \<Rightarrow>
             (case (map_of base k, v) of
                (Some (JDict b), JDict u) \<Rightarrow> Some (JDict (deep_update b u))
              | _ \<Rightarrow> Some v)))
   \<and> (map_of base sec = Some (JDict defaults) \<longrightarrow>
        (\<exists>merged.
           map_of (deep_update base [(sec, JDict [(key, v)])]) sec = Some (JDict merged)
           \<and> (\<forall>sibling. sibling \<noteq> key \<longrightarrow> map_of merged sibling = map_of defaults sibling)
           \<and> ((\<forall>u. v \<noteq> JDict u) \<longrightarrow> map_of merged key = Some v))
        \<and> (\<forall>other. other \<noteq> sec \<longrightarrow>
              map_of (deep_update base [(sec, JDict [(key, v)])]) other = map_of base other))"
proof (intro conjI impI)
  assume "distinct (map fst update)"
  then show "map_of (deep_update base update) k =
        (case map_of update k of
           None \<Rightarrow> map_of base k
         | Some v \<Rightarrow>
             (case (map_of base k, v) of
                (Some (JDict b), JDict u) \<Rightarrow> Some (JDict (deep_update b u))
              | _ \<Rightarrow> Some v))"
    by (rule deep_update_key)
next
  assume at: "map_of base sec = Some (JDict defaults)"
  let ?merged = "deep_update defaults [(key, v)]"
  have one: "distinct (map fst [(key, v)])" and both: "distinct (map fst [(sec, JDict [(key, v)])])"
    by simp_all
  have at_sec: "map_of (deep_update base [(sec, JDict [(key, v)])]) sec =
                  Some (JDict ?merged)"
    using deep_update_key [OF both, of base sec] at by simp
  have sib: "map_of ?merged sibling = map_of defaults sibling" if "sibling \<noteq> key" for sibling
    using deep_update_key [OF one, of defaults sibling] that by simp
  have leaf: "map_of ?merged key = Some v" if "\<forall>u. v \<noteq> JDict u"
    using deep_update_key [OF one, of defaults key] that
    by (simp split: option.splits json.splits)
  show "\<exists>merged.
           map_of (deep_update base [(sec, JDict [(key, v)])]) sec = Some (JDict merged)
           \<and> (\<forall>sibling. sibling \<noteq> key \<longrightarrow> map_of merged sibling = map_of defaults sibling)
           \<and> ((\<forall>u. v \<noteq> JDict u) \<longrightarrow> map_of merged key = Some v)"
    using at_sec sib leaf by blast
  show "\<forall>other. other \<noteq> sec \<longrightarrow>
          map_of (deep_update base [(sec, JDict [(key, v)])]) other = map_of base other"
    using deep_update_key [OF both, of base] by simp
qed

theorem deep_update_merge_witness:
  "distinct (map fst [(py ''video'', JDict [(py ''max_size_mb'', JInt 100)])])
   \<and> (\<exists>defaults merged.
         map_of (default_config (py ''p.md'')) (py ''video'') = Some (JDict defaults)
         \<and> map_of (deep_update (default_config (py ''p.md''))
                     [(py ''video'', JDict [(py ''max_size_mb'', JInt 100)])]) (py ''video'') =
             Some (JDict merged)
         \<and> map_of merged (py ''downsample_targets'') = map_of defaults (py ''downsample_targets'')
         \<and> map_of merged (py ''max_size_mb'') = Some (JInt 100))
   \<and> map_of (deep_update (default_config (py ''p.md''))
                [(py ''video'', JDict [(py ''max_size_mb'', JInt 100)])]) (py ''gemini'') =
       map_of (default_config (py ''p.md'')) (py ''gemini'')"
proof -
  let ?base = "default_config (py ''p.md'')"
  let ?update = "[(py ''video'', JDict [(py ''max_size_mb'', JInt 100)])]"
  have d: "distinct (map fst ?update)"
    by simp
  obtain defaults where video: "map_of ?base (py ''video'') = Some (JDict defaults)"
    by (simp add: default_config_def py_def)
  have names: "py ''downsample_targets'' \<noteq> py ''max_size_mb''" "py ''gemini'' \<noteq> py ''video''"
    by (simp_all add: py_def)
  have leaf: "\<forall>u. JInt 100 \<noteq> JDict u"
    by simp
  note merge = deep_update_merge
    [of ?update ?base "py ''video''" "py ''video''" defaults "py ''max_size_mb''" "JInt 100"]
  from conjunct2 [OF merge] video
  obtain merged where
    m1: "map_of (deep_update ?base ?update) (py ''video'') = Some (JDict merged)"
    and m2: "\<forall>sibling. sibling \<noteq> py ''max_size_mb'' \<longrightarrow>
               map_of merged sibling = map_of defaults sibling"
    and m3: "(\<forall>u. JInt 100 \<noteq> JDict u) \<longrightarrow> map_of merged (py ''max_size_mb'') = Some (JInt 100)"
    and m4: "\<forall>other. other \<noteq> py ''video'' \<longrightarrow>
               map_of (deep_update ?base ?update) other = map_of ?base other"
    by blast
  from m2 names(1) have s1:
    "map_of merged (py ''downsample_targets'') = map_of defaults (py ''downsample_targets'')"
    by blast
  from m3 leaf have s2: "map_of merged (py ''max_size_mb'') = Some (JInt 100)"
    by blast
  from m4 names(2) have s3:
    "map_of (deep_update ?base ?update) (py ''gemini'') = map_of ?base (py ''gemini'')"
    by blast
  from d video m1 s1 s2 s3 show ?thesis
    by blast
qed

subsection \<open>Strings\<close>

lemma startswith_append [simp]: "startswith (sub @ post) sub"
  by (simp add: startswith_def)

lemma py_in_append: "py_in sub (pre @ sub @ post)"
proof (induction pre)
  case Nil
  show ?case
  proof (cases "sub @ post")
    case Nil
    then show ?thesis by simp
  next
    case (Cons a list)
    have "startswith (sub @ post) sub" by simp
    then have "py_in sub (a # list)"
      unfolding Cons by simp
    then show ?thesis
      by (simp add: Cons)
  qed
next
  case (Cons x pre)
  then show ?case by simp
qed

lemma py_in_iff: "py_in sub text \<longleftrightarrow> (\<exists>pre post. text = pre @ sub @ post)"
proof
  show "py_in sub text \<Longrightarrow> \<exists>pre post. text = pre @ sub @ post"
  proof (induction "text")
    case Nil
    then show ?case by simp
  next
    case (Cons x xs)
    show ?case
    proof (cases "startswith (x # xs) sub")
      case True
      then have "x # xs = [] @ sub @ drop (length sub) (x # xs)"
        by (metis append_Nil append_take_drop_id startswith_def)
      then show ?thesis by blast
    next
      case False
      with Cons.prems have "py_in sub xs" by simp
      then obtain pre post where "xs = pre @ sub @ post"
        using Cons.IH by blast
      then have "x # xs = (x # pre) @ sub @ post" by simp
      then show ?thesis by blast
    qed
  qed
next
  show "\<exists>pre post. text = pre @ sub @ post \<Longrightarrow> py_in sub text"
    using py_in_append by blast
qed

lemma find_aux_absent: "\<not> py_in sub text \<Longrightarrow> find_aux sub text i = - 1"
  by (induction "text" arbitrary: i) auto

lemma find_aux_first:
  assumes "sub \<noteq> []" and "\<not> py_in sub (pre @ butlast sub)"
  shows "find_aux sub (pre @ sub @ post) i = int (i + length pre)"
  using assms(2)
proof (induction pre arbitrary: i)
  case Nil
  obtain x xs where "sub @ post = x # xs"
    using assms(1) by (cases "sub @ post") auto
  moreover have "startswith (sub @ post) sub" by simp
  ultimately show ?case
    by (metis add.right_neutral append_Nil find_aux.simps(2) list.size(3))
next
  case (Cons x pre)
  from Cons.prems have no_start: "\<not> startswith ((x # pre) @ butlast sub) sub"
    and rest: "\<not> py_in sub (pre @ butlast sub)"
    by simp_all
  have decomp: "(x # pre) @ sub @ post = ((x # pre) @ butlast sub) @ [last sub] @ post"
    using assms(1) by simp
  have len: "length sub \<le> length ((x # pre) @ butlast sub)"
    by simp
  have "take (length sub) ((x # pre) @ sub @ post) = take (length sub) ((x # pre) @ butlast sub)"
    unfolding decomp using len by (simp del: append_Cons append_assoc)
  with no_start have "\<not> startswith ((x # pre) @ sub @ post) sub"
    by (simp add: startswith_def)
  then have "find_aux sub ((x # pre) @ sub @ post) i = find_aux sub (pre @ sub @ post) (i + 1)"
    by simp
  also have "\<dots> = int (i + 1 + length pre)"
    by (rule Cons.IH [OF rest])
  finally show ?case by simp
qed

lemma clamp_index_nat [simp]: "n \<le> length text \<Longrightarrow> clamp_index text (int n) = n"
  by (simp add: clamp_index_def Let_def)

subsection \<open>Extraction of the subtitle document\<close>

lemma marker_facts: "marker \<noteq> []" "length marker = 6"
  by (simp_all add: marker_def py_def)

lemma fence_facts: "fence \<noteq> []" "length fence = 3"
  by (simp_all add: fence_def)

lemma find_marker:
  assumes "\<not> py_in marker (pre @ butlast marker)"
  shows "py_find (pre @ marker @ rest) marker 0 = int (length pre)"
  using find_aux_first [OF marker_facts(1) assms, of rest 0]
    clamp_index_nat [of 0 "pre @ marker @ rest"]
  by (simp add: py_find_def)

lemma slice_to_end:
  "py_slice (pre @ rest) (int (length pre)) None = rest"
  by (simp add: py_slice_def Let_def)

lemma slice_span:
  "py_slice (pre @ doc @ post) (int (length pre)) (Some (int (length pre + length doc))) = doc"
proof -
  have "clamp_index (pre @ doc @ post) (int (length pre + length doc)) =
          length pre + length doc"
    by (rule clamp_index_nat) simp
  moreover have "clamp_index (pre @ doc @ post) (int (length pre)) = length pre"
    by (rule clamp_index_nat) simp
  ultimately show ?thesis
    by (simp add: py_slice_def Let_def)
qed

lemma fenced_document:
  assumes first: "\<not> py_in marker (pre @ butlast marker)"
    and closing: "\<not> py_in fence (marker @ body @ butlast fence)"
  shows "call_gemini_vtt (pre @ marker @ body @ fence @ post) = strip (marker @ body)"
    and "extract_vtt (pre @ marker @ body @ fence @ post) = strip (marker @ body)"
proof -
  let ?text = "pre @ marker @ body @ fence @ post"
  have present: "py_in marker ?text"
    by (rule py_in_append)
  have start: "py_find ?text marker 0 = int (length pre)"
    by (rule find_marker [OF first])
  have "find_aux fence ((marker @ body) @ fence @ post) (length pre) =
          int (length pre + length (marker @ body))"
    by (rule find_aux_first [OF fence_facts(1)]) (use closing in simp)
  then have stop: "py_find ?text fence (int (length pre)) = int (length pre + length (marker @ body))"
    by (simp add: py_find_def)
  have sliced: "py_slice ?text (int (length pre)) (Some (int (length pre + length (marker @ body)))) =
                marker @ body"
    using slice_span [of pre "marker @ body" "fence @ post"] by simp
  show "call_gemini_vtt ?text = strip (marker @ body)"
    unfolding call_gemini_vtt_def Let_def start stop sliced
    using present by (simp add: marker_facts)
  show "extract_vtt ?text = strip (marker @ body)"
    unfolding extract_vtt_def Let_def start stop sliced
    using present by simp
qed

lemma open_document:
  assumes first: "\<not> py_in marker (pre @ butlast marker)"
    and unclosed: "\<not> py_in fence (marker @ rest)"
  shows "call_gemini_vtt (pre @ marker @ rest) = strip (marker @ rest)"
    and "extract_vtt (pre @ marker @ rest) = marker @ rest"
proof -
  let ?text = "pre @ marker @ rest"
  have present: "py_in marker ?text"
    by (rule py_in_append)
  have start: "py_find ?text marker 0 = int (length pre)"
    by (rule find_marker [OF first])
  have "find_aux fence (marker @ rest) (length pre) = - 1"
    by (rule find_aux_absent [OF unclosed])
  then have stop: "py_find ?text fence (int (length pre)) = - 1"
    by (simp add: py_find_def)
  have sliced: "py_slice ?text (int (length pre)) None = marker @ rest"
    by (rule slice_to_end)
  show "call_gemini_vtt ?text = strip (marker @ rest)"
    unfolding call_gemini_vtt_def Let_def start stop sliced
    using present by simp
  show "extract_vtt ?text = marker @ rest"
    unfolding extract_vtt_def Let_def start stop sliced
    using present by simp
qed

lemma raw1_shape:
  "\<not> py_in marker (raw1_pre @ butlast marker)"
  "\<not> py_in fence (marker @ raw1_body @ butlast fence)"
  by (simp_all add: raw1_pre_def raw1_body_def marker_def fence_def py_def startswith_def)

lemma raw2_shape:
  "\<not> py_in marker ([] @ butlast marker)"
  "\<not> py_in fence (marker @ raw2_rest)"
  by (simp_all add: raw2_rest_def marker_def fence_def py_def startswith_def)

lemma raw3_shape: "\<not> py_in marker raw3"
  by (simp add: raw3_def marker_def py_def startswith_def)

lemma strip_raw1: "strip (marker @ raw1_body) = marker @ butlast raw1_body"
  by (simp add: strip_def raw1_body_def marker_def py_def isspace_def)

text \<open>
  Claim C2 as stated fails: on the first response of the program's own extraction
  tests, the span from the first marker up to the next terminator ends with a line
  feed, and the result of the extraction is not that span (the line feed is gone).
\<close>

theorem extraction_span_counterexample:
  "raw1 = raw1_pre @ marker @ raw1_body @ fence @ raw1_post
   \<and> \<not> py_in marker (raw1_pre @ butlast marker)
   \<and> \<not> py_in fence (marker @ raw1_body @ butlast fence)
   \<and> call_gemini_vtt raw1 \<noteq> marker @ raw1_body
   \<and> extract_vtt raw1 \<noteq> marker @ raw1_body"
proof -
  have "call_gemini_vtt raw1 = marker @ butlast raw1_body"
    and "extract_vtt raw1 = marker @ butlast raw1_body"
    unfolding raw1_def using fenced_document [OF raw1_shape] strip_raw1 by simp_all
  moreover have "butlast raw1_body \<noteq> raw1_body"
    by (simp add: raw1_body_def py_def)
  ultimately show ?thesis
    using raw1_shape by (simp add: raw1_def)
qed

text \<open>
  Claim C2, amended. A text without the marker is returned unchanged. In a text whose
  first marker starts after \<open>pre\<close> and where the next terminator after the marker
  follows \<open>body\<close>, the result is the span \<open>marker @ body\<close> with the white space at its
  two ends stripped. In a text whose first marker starts after \<open>pre\<close> and where no
  terminator follows, \<open>call_gemini\<close> returns the span from the marker to the end of the
  text with the white space at its ends stripped, and the test helper \<open>extract_vtt\<close>
  returns that span as it is.
\<close>

theorem extraction_stripped_span:
  "(\<not> py_in marker response \<longrightarrow>
      call_gemini_vtt response = response \<and> extract_vtt response = response)
   \<and> (\<not> py_in marker (pre @ butlast marker) \<and> \<not> py_in fence (marker @ body @ butlast fence) \<longrightarrow>
        call_gemini_vtt (pre @ marker @ body @ fence @ post) = strip (marker @ body)
        \<and> extract_vtt (pre @ marker @ body @ fence @ post) = strip (marker @ body))
   \<and> (\<not> py_in marker (pre' @ butlast marker) \<and> \<not> py_in fence (marker @ rest) \<longrightarrow>
        call_gemini_vtt (pre' @ marker @ rest) = strip (marker @ rest)
        \<and> extract_vtt (pre' @ marker @ rest) = marker @ rest)"
  using fenced_document [of pre body post] open_document [of pre' rest]
  by (simp add: call_gemini_vtt_def extract_vtt_def)

theorem extraction_stripped_span_witness:
  "\<not> py_in marker raw3 \<and> call_gemini_vtt raw3 = raw3
   \<and> \<not> py_in marker (raw1_pre @ butlast marker)
   \<and> \<not> py_in fence (marker @ raw1_body @ butlast fence)
   \<and> call_gemini_vtt raw1 = marker @ butlast raw1_body
   \<and> \<not> py_in marker ([] @ butlast marker) \<and> \<not> py_in fence (marker @ raw2_rest)
   \<and> call_gemini_vtt ([] @ marker @ raw2_rest) = marker @ raw2_rest
   \<and> extract_vtt ([] @ marker @ raw2_rest) = marker @ raw2_rest"
proof -
  note cases = extraction_stripped_span [of raw3 raw1_pre raw1_body raw1_post "[]" raw2_rest]
  have none: "call_gemini_vtt raw3 = raw3"
    using cases raw3_shape by blast
  have "call_gemini_vtt raw1 = strip (marker @ raw1_body)"
    unfolding raw1_def using cases raw1_shape by blast
  then have fenced: "call_gemini_vtt raw1 = marker @ butlast raw1_body"
    by (simp only: strip_raw1)
  have "strip (marker @ raw2_rest) = marker @ raw2_rest"
    by (simp add: strip_def raw2_rest_def marker_def py_def isspace_def)
  moreover have "call_gemini_vtt ([] @ marker @ raw2_rest) = strip (marker @ raw2_rest)"
    and plain: "extract_vtt ([] @ marker @ raw2_rest) = marker @ raw2_rest"
    using cases raw2_shape by blast+
  ultimately have unfenced: "call_gemini_vtt ([] @ marker @ raw2_rest) = marker @ raw2_rest"
    by simp
  from none fenced unfenced plain raw1_shape raw2_shape raw3_shape show ?thesis
    by blast
qed

subsection \<open>Request paths\<close>

lemma replace_nonempty_absent:
  "\<not> py_in old t \<Longrightarrow> replace_nonempty t old new = t"
  by (induction t) auto

lemma replace_nonempty_prefix:
  assumes "old \<noteq> []"
  shows "replace_nonempty (old @ rest) old new = new @ replace_nonempty rest old new"
proof -
  obtain x xs where shape: "old @ rest = x # xs"
    using assms by (cases "old @ rest") auto
  have "startswith (x # xs) old"
    using startswith_append [of old rest] by (simp only: shape)
  moreover have "drop (length old) (x # xs) = rest"
    using shape by (metis append_eq_conv_conj)
  ultimately have "replace_nonempty (x # xs) old new = new @ replace_nonempty rest old new"
    using assms by simp
  then show ?thesis
    by (simp only: shape)
qed

lemma replace_media_prefix:
  assumes "\<not> py_in (py ''/media/'') rest"
  shows "py_replace (py ''/media/'' @ rest) (py ''/media/'') [] = rest"
proof -
  have ne: "py ''/media/'' \<noteq> []"
    by (simp add: py_def)
  have "replace_nonempty (py ''/media/'' @ rest) (py ''/media/'') [] =
          [] @ replace_nonempty rest (py ''/media/'') []"
    by (rule replace_nonempty_prefix [OF ne])
  also have "\<dots> = rest"
    using replace_nonempty_absent [OF assms] by simp
  finally show ?thesis
    using ne by (simp add: py_replace_def)
qed

lemma player_page_name:
  "lstrip_slash (py ''/player.html'') = py ''player.html''"
  "endswith (py ''player.html'') (py ''.html'')"
  "\<not> startswith (py ''/player.html'') (py ''/media/'')"
  by (simp_all add: lstrip_slash_def endswith_def startswith_def py_def)

lemma relative_name_root:
  "\<not> startswith name (py ''/'') \<Longrightarrow> path_root name = []"
  by (cases name) (simp_all add: path_root_def startswith_def py_def)

lemma lstrip_slash_root:
  "path_root (lstrip_slash t) = []"
proof (cases "dropWhile (\<lambda>c. c = 47) t")
  case Nil
  show ?thesis
    unfolding path_root_def lstrip_slash_def Nil by simp
next
  case (Cons x xs)
  then have "x \<noteq> 47"
    using hd_dropWhile [of "\<lambda>c. c = 47" t] by auto
  then show ?thesis
    unfolding path_root_def lstrip_slash_def Cons by simp
qed

lemma joinpath_relative:
  "path_root name = [] \<Longrightarrow>
     joinpath posix_lib directory name =
       format_path (path_root directory) (path_parts directory @ path_parts name)"
  by (simp add: posix_lib_def)




subsection \<open>\<open>downsample_video\<close>\<close>

lemma run_command_calls:
  "calls (snd (run_command env cmd capture s)) = calls s @ [Subprocess cmd]"
proof -
  obtain r s' where ext:
    "external (subprocess_run env cmd capture 3600) (Subprocess cmd) s = (r, s')"
    by (cases "external (subprocess_run env cmd capture 3600) (Subprocess cmd) s")
  have "calls s' = calls s @ [Subprocess cmd]"
    using external_calls [of "subprocess_run env cmd capture 3600" "Subprocess cmd" s] ext
    by simp
  moreover have "snd (run_command env cmd capture s) = s'"
    by (simp add: run_command_def ext split: sum.splits py_error.splits list.splits)
  ultimately show ?thesis
    by simp
qed

lemma split_on_absent:
  "sep \<notin> set t \<Longrightarrow> split_on sep t = [t]"
  by (induction t) auto

lemma split_on_once:
  "count_list t sep = 1 \<Longrightarrow>
     split_on sep t = [takeWhile (\<lambda>c. c \<noteq> sep) t, tl (dropWhile (\<lambda>c. c \<noteq> sep) t)]"
proof (induction t)
  case Nil
  then show ?case by simp
next
  case (Cons x xs)
  show ?case
  proof (cases "x = sep")
    case True
    with Cons.prems have "count_list xs sep = 0"
      by simp
    then have "sep \<notin> set xs"
      by (simp add: count_list_0_iff)
    then have "split_on sep xs = [xs]"
      by (rule split_on_absent)
    with True show ?thesis
      by simp
  next
    case False
    with Cons.prems have "count_list xs sep = 1"
      by simp
    from Cons.IH [OF this] False show ?thesis
      by simp
  qed
qed

lemma ffmpeg_cmd_spec:
  "count_list (resolution t) 120 = 1 \<Longrightarrow>
     ffmpeg_cmd v out t = Some (spec_transcoder_command v out t)"
  by (simp add: ffmpeg_cmd_def spec_transcoder_command_def preset_width_def preset_height_def
        split_on_once)

lemma try_target_accepted:
  assumes "count_list (resolution t) 120 = 1"
    and "run_command env (spec_transcoder_command v out t) True s = (Inr (code, so, se), s1)"
    and "spec_accepted code s1 out m"
  shows "try_target env m v out t s = (Inr Fits, s1)"
  using assms(3)
  by (auto simp: try_target_def ffmpeg_cmd_spec [OF assms(1)] assms(2) spec_accepted_def
        path_exists_def get_file_size_mb_def split: option.splits)

lemma try_target_rejected:
  assumes "count_list (resolution t) 120 = 1"
    and "run_command env (spec_transcoder_command v out t) True s = (Inr (code, so, se), s1)"
    and "\<not> spec_accepted code s1 out m"
  shows "try_target env m v out t s = (Inr Oversized, s1)
         \<or> try_target env m v out t s = (Inr Failed, s1)"
  using assms(3)
  by (auto simp: try_target_def ffmpeg_cmd_spec [OF assms(1)] assms(2) spec_accepted_def
        path_exists_def get_file_size_mb_def split: option.splits)

lemma spec_all_rejected_loop:
  assumes "spec_all_rejected env m v out earlier s = Some s1"
  shows "downsample_loop env m v out (earlier @ rest) s = downsample_loop env m v out rest s1
         \<and> calls s1 = calls s @ map (\<lambda>p. Subprocess (spec_transcoder_command v out p)) earlier"
  using assms
proof (induction earlier arbitrary: s)
  case Nil
  then show ?case by simp
next
  case (Cons t ts)
  from Cons.prems have wf: "count_list (resolution t) 120 = 1"
    by (simp split: if_splits)
  obtain r s' where run: "run_command env (spec_transcoder_command v out t) True s = (r, s')"
    by (cases "run_command env (spec_transcoder_command v out t) True s")
  from Cons.prems wf obtain code so se where r: "r = Inr (code, so, se)"
    by (cases r) (auto simp: run)
  from Cons.prems wf have rejected: "\<not> spec_accepted code s' out m"
    and rest_rejected: "spec_all_rejected env m v out ts s' = Some s1"
    by (auto simp: run r split: if_splits)
  have log: "calls s' = calls s @ [Subprocess (spec_transcoder_command v out t)]"
    using run_command_calls [of env "spec_transcoder_command v out t" True s] run by simp
  from Cons.IH [OF rest_rejected] have
    loop: "downsample_loop env m v out (ts @ rest) s' = downsample_loop env m v out rest s1"
    and logs: "calls s1 =
                 calls s' @ map (\<lambda>p. Subprocess (spec_transcoder_command v out p)) ts"
    by simp_all
  have "downsample_loop env m v out ((t # ts) @ rest) s = downsample_loop env m v out rest s1"
    using try_target_rejected [OF wf run [unfolded r] rejected] loop by auto
  moreover have "calls s1 =
      calls s @ map (\<lambda>p. Subprocess (spec_transcoder_command v out p)) (t # ts)"
    using log logs by simp
  ultimately show ?case
    by blast
qed


lemma presets_well_formed:
  "count_list (resolution preset_10fps_1080p) 120 = 1"
  "count_list (resolution preset_5fps_1080p) 120 = 1"
  "count_list (resolution preset_5fps_720p) 120 = 1"
  "count_list (resolution preset_1fps_480p) 120 = 1"
  by (simp_all add: preset_10fps_1080p_def preset_5fps_1080p_def preset_5fps_720p_def
        preset_1fps_480p_def py_def)

lemma spec_transcoder_command_last:
  "last (spec_transcoder_command v out t) = out"
  by (simp add: spec_transcoder_command_def)

lemma staged_run:
  "run_command staged_env (spec_transcoder_command v out t) True s =
     (Inr (if hid s = 0 then 1 else 0, Some [], Some []),
      \<lparr>fs = (fs s)(out \<mapsto> replicate (if hid s = 0 then 1 else 4 - hid s) 0),
       hid = Suc (hid s),
       calls = calls s @ [Subprocess (spec_transcoder_command v out t)]\<rparr>)"
  by (simp add: run_command_def external_def staged_env_def spec_transcoder_command_last)


subsection \<open>Baseline subtitles\<close>



lemma extract_cmd_last: "last (extract_cmd v p) = p"
  by (simp add: extract_cmd_def)

lemma empty_output_run:
  "run_command empty_output_env (extract_cmd v p) True empty_state =
     (Inr (0, Some [], Some []),
      \<lparr>fs = [p \<mapsto> []], hid = (), calls = [Subprocess (extract_cmd v p)]\<rparr>)"
  by (simp add: run_command_def external_def empty_output_env_def empty_state_def
        extract_cmd_last)

lemma failing_tool_run:
  "run_command failing_tool_env (extract_cmd v p) True empty_state =
     (Inr (1, Some [], Some []),
      \<lparr>fs = Map.empty, hid = (), calls = [Subprocess (extract_cmd v p)]\<rparr>)"
  by (simp add: run_command_def external_def failing_tool_env_def empty_state_def)




end
